theory Spec2Isabelle
  imports
    Main
    "HOL-Library.Char_ord"
    "HOL-Library.List_Lexorder"
    "HOL-Library.Product_Lexorder"
    "HOL-Library.Multiset"
begin

section \<open>Domain (main.py, Domain section)\<close>

text \<open>
  \<^verbatim>\<open>class DoseEnum(str, Enum)\<close> with members D1, D2, D3, R1, R2, each with its own
  name as value; \<^verbatim>\<open>class GenderEnum(str, Enum)\<close> with members M, F, O (written
  \<open>G_M\<close>, \<open>G_F\<close>, \<open>G_O\<close>, since \<open>O\<close> is the relation composition of HOL).
\<close>

datatype DoseEnum = D1 | D2 | D3 | R1 | R2

datatype GenderEnum = G_M | G_F | G_O

text \<open>The \<^verbatim>\<open>.value\<close> attribute of a member.\<close>

fun dose_value :: "DoseEnum \<Rightarrow> string" where
  "dose_value D1 = ''D1''"
| "dose_value D2 = ''D2''"
| "dose_value D3 = ''D3''"
| "dose_value R1 = ''R1''"
| "dose_value R2 = ''R2''"

fun gender_value :: "GenderEnum \<Rightarrow> string" where
  "gender_value G_M = ''M''"
| "gender_value G_F = ''F''"
| "gender_value G_O = ''O''"

text \<open>
  The members of each enumeration in definition order, and the call \<^verbatim>\<open>DoseEnum(s)\<close>
  (\<^verbatim>\<open>GenderEnum(s)\<close>): the member whose value is \<open>s\<close>; Python raises ValueError when
  there is none, here the result is \<open>None\<close> and the caller turns it into the error.
\<close>

definition DoseEnum_members :: "DoseEnum list" where
  "DoseEnum_members = [D1, D2, D3, R1, R2]"

definition GenderEnum_members :: "GenderEnum list" where
  "GenderEnum_members = [G_M, G_F, G_O]"

definition DoseEnum_call :: "string \<Rightarrow> DoseEnum option" where
  "DoseEnum_call s = find (\<lambda>d. dose_value d = s) DoseEnum_members"

definition GenderEnum_call :: "string \<Rightarrow> GenderEnum option" where
  "GenderEnum_call s = find (\<lambda>g. gender_value g = s) GenderEnum_members"

text \<open>
  \<^verbatim>\<open>DOSE_ORDER = [DoseEnum.D1, DoseEnum.D2, DoseEnum.D3, DoseEnum.R1, DoseEnum.R2]\<close> and
  \<^verbatim>\<open>ORDER_INDEX = {d: i for i, d in enumerate(DOSE_ORDER)}\<close>: a dictionary, built by
  storing the pairs from left to right.
\<close>

definition DOSE_ORDER :: "DoseEnum list" where
  "DOSE_ORDER = [D1, D2, D3, R1, R2]"

definition ORDER_INDEX :: "DoseEnum \<rightharpoonup> nat" where
  "ORDER_INDEX = fold (\<lambda>(i, d) m. m(d \<mapsto> i)) (enumerate 0 DOSE_ORDER) Map.empty"

text \<open>
  Dates are (year, month, day) and compare lexicographically, as Python's \<^verbatim>\<open>date\<close> and
  the ISO text the \<^verbatim>\<open>Date\<close> column stores do. A \<^verbatim>\<open>datetime\<close> is only carried along.
\<close>

type_synonym date = "nat \<times> nat \<times> nat"

type_synonym datetime = nat

subsection \<open>Tables\<close>

text \<open>
  The three mapped classes. Field names carry a prefix where two classes share a column
  name (\<^verbatim>\<open>id\<close>, \<^verbatim>\<open>name\<close>). \<^verbatim>\<open>allowed_doses\<close> is the stored JSON text;
  \<^verbatim>\<open>dose\<close> and \<^verbatim>\<open>sex\<close> are String columns holding an enum value.
\<close>

record Vaccine =
  vac_id :: string
  vac_name :: string
  vac_code :: string
  allowed_doses :: string

record Person =
  per_id :: string
  per_name :: string
  document :: string
  sex :: string
  age :: int

record Vaccination =
  rec_id :: string
  person_id :: string
  vaccine_id :: string
  dose :: string
  applied_at :: date
  lot :: "string option"
  location :: "string option"
  created_at :: datetime

text \<open>
  The database session: one list of rows per table, in insertion order.
  \<^verbatim>\<open>db.get(Cls, pk)\<close> is the row with that primary key, or None.
\<close>

record Db =
  people :: "Person list"
  vaccines :: "Vaccine list"
  vaccinations :: "Vaccination list"

definition get_Person :: "Db \<Rightarrow> string \<Rightarrow> Person option" where
  "get_Person db pid = find (\<lambda>p. per_id p = pid) (people db)"

definition get_Vaccine :: "Db \<Rightarrow> string \<Rightarrow> Vaccine option" where
  "get_Vaccine db vid = find (\<lambda>v. vac_id v = vid) (vaccines db)"

text \<open>
  \<^verbatim>\<open>Vaccine.allowed_list\<close>: \<^verbatim>\<open>json.loads(self.allowed_doses)\<close>, and the default
  values of \<^verbatim>\<open>DOSE_ORDER\<close> when that raises. The decoder is the standard library's
  and is a parameter here, typed by the method's annotation \<^verbatim>\<open>List[str]\<close>; \<open>None\<close>
  stands for any exception it raises.
\<close>

type_synonym json_loads = "string \<Rightarrow> string list option"

definition allowed_list :: "json_loads \<Rightarrow> Vaccine \<Rightarrow> string list" where
  "allowed_list loads v =
     (case loads (allowed_doses v) of
        Some xs \<Rightarrow> xs
      | None \<Rightarrow> map dose_value DOSE_ORDER)"

subsection \<open>Schemas\<close>

record VaccinationIn =
  in_person_id :: string
  in_vaccine_id :: string
  in_dose :: DoseEnum
  in_applied_at :: date
  in_lot :: "string option"
  in_location :: "string option"

record VaccinationOut =
  out_id :: string
  out_person_id :: string
  out_vaccine_id :: string
  out_dose :: DoseEnum
  out_applied_at :: date
  out_lot :: "string option"
  out_location :: "string option"
  out_created_at :: datetime

subsection \<open>Errors\<close>

text \<open>
  One constructor per \<^verbatim>\<open>raise HTTPException\<close> site of the validator, carrying what the
  detail message is formatted from, and the two Python exceptions the code can raise
  besides. \<open>NotFound\<close> is status 404 (person or vaccine), \<open>DoseNotAllowed\<close> is the 422 of
  \<^verbatim>\<open>ensure_dose_allowed\<close> (dose and vaccine name), \<open>SequenceViolation\<close> is the 409 of
  \<^verbatim>\<open>ensure_dose_order\<close> (candidate dose and the prior dose it requires),
  \<open>DuplicateDose\<close> is the 409 of the duplicate query.
\<close>

datatype entity = PersonEntity | VaccineEntity

datatype error =
    NotFound entity
  | DoseNotAllowed DoseEnum string
  | SequenceViolation DoseEnum DoseEnum
  | DuplicateDose
  | KeyError
  | ValueError

fun status_code :: "error \<Rightarrow> nat" where
  "status_code (NotFound _) = 404"
| "status_code (DoseNotAllowed _ _) = 422"
| "status_code (SequenceViolation _ _) = 409"
| "status_code DuplicateDose = 409"
| "status_code KeyError = 500"
| "status_code ValueError = 500"

section \<open>Helpers\<close>

text \<open>
  \<^verbatim>\<open>ensure_dose_allowed\<close>: raises 422 when the dose's value is not in the vaccine's
  allowed list.
\<close>

definition ensure_dose_allowed :: "json_loads \<Rightarrow> Vaccine \<Rightarrow> DoseEnum \<Rightarrow> error + unit" where
  "ensure_dose_allowed loads vac d =
     (if dose_value d \<notin> set (allowed_list loads vac)
      then Inl (DoseNotAllowed d (vac_name vac))
      else Inr ())"

text \<open>
  The loop \<^verbatim>\<open>for d in prev: if d.value not in existing: raise ...\<close> of
  \<^verbatim>\<open>ensure_dose_order\<close>, which raises at the first prior dose that is missing.
\<close>

fun check_prev :: "DoseEnum \<Rightarrow> string set \<Rightarrow> DoseEnum list \<Rightarrow> error + unit" where
  "check_prev cand existing [] = Inr ()"
| "check_prev cand existing (d # ds) =
     (if dose_value d \<notin> existing then Inl (SequenceViolation cand d)
      else check_prev cand existing ds)"

text \<open>
  \<^verbatim>\<open>ensure_dose_order\<close>: \<^verbatim>\<open>ORDER_INDEX[dose]\<close> (KeyError on a missing key), return at
  index 0, otherwise every dose of \<^verbatim>\<open>DOSE_ORDER[:idx]\<close> must be among the doses the
  person has on record for the vaccine.
\<close>

definition ensure_dose_order :: "Db \<Rightarrow> string \<Rightarrow> string \<Rightarrow> DoseEnum \<Rightarrow> error + unit" where
  "ensure_dose_order db pid vid d =
     (case ORDER_INDEX d of
        None \<Rightarrow> Inl KeyError
      | Some idx \<Rightarrow>
          if idx = 0 then Inr ()
          else
            let prev = take idx DOSE_ORDER;
                existing = set (map dose
                  (filter (\<lambda>r. person_id r = pid \<and> vaccine_id r = vid) (vaccinations db)))
            in check_prev d existing prev)"

section \<open>Endpoint: create_vaccination\<close>

text \<open>
  \<^verbatim>\<open>POST /vaccinations\<close>. The result pairs the response (or the exception raised) with
  the database after the call. \<open>new_id\<close> and \<open>now\<close> are the column defaults
  (\<^verbatim>\<open>uuid.uuid4()\<close>, \<^verbatim>\<open>datetime.utcnow\<close>) of the inserted row. The row is added
  and committed before the response is built with \<^verbatim>\<open>DoseEnum(rec.dose)\<close>.
\<close>

definition create_vaccination ::
  "json_loads \<Rightarrow> VaccinationIn \<Rightarrow> Db \<Rightarrow> bool \<Rightarrow> string \<Rightarrow> datetime
     \<Rightarrow> (error + VaccinationOut) \<times> Db" where
  "create_vaccination loads payload db enforce_sequence new_id now =
     (case get_Person db (in_person_id payload) of
        None \<Rightarrow> (Inl (NotFound PersonEntity), db)
      | Some p \<Rightarrow>
     (case get_Vaccine db (in_vaccine_id payload) of
        None \<Rightarrow> (Inl (NotFound VaccineEntity), db)
      | Some v \<Rightarrow>
     (case ensure_dose_allowed loads v (in_dose payload) of
        Inl e \<Rightarrow> (Inl e, db)
      | Inr _ \<Rightarrow>
     (case (if enforce_sequence
            then ensure_dose_order db (in_person_id payload) (in_vaccine_id payload)
                   (in_dose payload)
            else Inr ()) of
        Inl e \<Rightarrow> (Inl e, db)
      | Inr _ \<Rightarrow>
     (case find (\<lambda>r. person_id r = in_person_id payload
                      \<and> vaccine_id r = in_vaccine_id payload
                      \<and> dose r = dose_value (in_dose payload)) (vaccinations db) of
        Some dup \<Rightarrow> (Inl DuplicateDose, db)
      | None \<Rightarrow>
          let rec = \<lparr> rec_id = new_id,
                      person_id = in_person_id payload,
                      vaccine_id = in_vaccine_id payload,
                      dose = dose_value (in_dose payload),
                      applied_at = in_applied_at payload,
                      lot = in_lot payload,
                      location = in_location payload,
                      created_at = now \<rparr>;
              db' = db \<lparr> vaccinations := vaccinations db @ [rec] \<rparr>
          in (case DoseEnum_call (dose rec) of
                None \<Rightarrow> (Inl ValueError, db')
              | Some d' \<Rightarrow>
                  (Inr \<lparr> out_id = rec_id rec,
                         out_person_id = person_id rec,
                         out_vaccine_id = vaccine_id rec,
                         out_dose = d',
                         out_applied_at = applied_at rec,
                         out_lot = lot rec,
                         out_location = location rec,
                         out_created_at = created_at rec \<rparr>, db')))))))"

section \<open>Endpoint: get_card\<close>

subsection \<open>Response schemas\<close>

record PersonOut =
  po_id :: string
  po_name :: string
  po_document :: string
  po_sex :: GenderEnum
  po_age :: int

record CardEntry =
  record_id :: string
  ce_dose :: DoseEnum
  ce_applied_at :: date
  ce_lot :: "string option"
  ce_location :: "string option"

record CardVaccineBlock =
  cb_vaccine_id :: string
  cb_vaccine_name :: string
  entries :: "CardEntry list"

record CardListOut =
  cl_person :: PersonOut
  cl_vaccines :: "CardVaccineBlock list"

record MatrixCol =
  mc_vaccine_id :: string
  mc_vaccine_name :: string

record MatrixCell =
  cell_record_id :: string
  cell_applied_at :: date
  cell_dose :: DoseEnum

record CardMatrixOut =
  rows :: "DoseEnum list"
  cols :: "MatrixCol list"
  grid :: "MatrixCell option list list"

text \<open>
  The query parameter \<^verbatim>\<open>format\<close> is validated against \<^verbatim>\<open>^(list|matrix)$\<close> before the
  function runs, so it is one of two values; the function returns one of two shapes.
\<close>

datatype card_format = FormatList | FormatMatrix

datatype card = CardList CardListOut | CardMatrix CardMatrixOut

subsection \<open>List format\<close>

text \<open>
  \<^verbatim>\<open>PersonOut(id=p.id, ..., sex=GenderEnum(p.sex), age=p.age)\<close>; the enum call raises
  ValueError on a string that is no member's value.
\<close>

definition person_out :: "Person \<Rightarrow> error + PersonOut" where
  "person_out p =
     (case GenderEnum_call (sex p) of
        None \<Rightarrow> Inl ValueError
      | Some g \<Rightarrow> Inr \<lparr> po_id = per_id p, po_name = per_name p,
                        po_document = document p, po_sex = g, po_age = age p \<rparr>)"

text \<open>
  \<^verbatim>\<open>bucket.setdefault(rec.vaccine_id, []).append(rec)\<close> on a dictionary that keeps its
  keys in insertion order: an association list, a new key going to the end.
\<close>

fun setdefault_append ::
  "(string \<times> Vaccination list) list \<Rightarrow> string \<Rightarrow> Vaccination
     \<Rightarrow> (string \<times> Vaccination list) list" where
  "setdefault_append [] k r = [(k, [r])]"
| "setdefault_append ((k', rs) # b) k r =
     (if k' = k then (k', rs @ [r]) # b else (k', rs) # setdefault_append b k r)"

text \<open>The comprehension \<^verbatim>\<open>[CardEntry(..., dose=DoseEnum(r.dose), ...) for r in recs]\<close>.\<close>

fun card_entries :: "Vaccination list \<Rightarrow> error + CardEntry list" where
  "card_entries [] = Inr []"
| "card_entries (r # rs) =
     (case DoseEnum_call (dose r) of
        None \<Rightarrow> Inl ValueError
      | Some d \<Rightarrow>
          (case card_entries rs of
             Inl e \<Rightarrow> Inl e
           | Inr es \<Rightarrow> Inr (\<lparr> record_id = rec_id r, ce_dose = d,
                              ce_applied_at = applied_at r, ce_lot = lot r,
                              ce_location = location r \<rparr> # es)))"

text \<open>
  The loop \<^verbatim>\<open>for vid, recs in bucket.items()\<close>, which appends one block per key;
  the name is the vaccine's, or the id itself when the catalog has no such vaccine.
\<close>

fun card_blocks ::
  "(string \<rightharpoonup> Vaccine) \<Rightarrow> (string \<times> Vaccination list) list
     \<Rightarrow> error + CardVaccineBlock list" where
  "card_blocks vmap [] = Inr []"
| "card_blocks vmap ((vid, recs) # rest) =
     (case card_entries recs of
        Inl e \<Rightarrow> Inl e
      | Inr es \<Rightarrow>
          (case card_blocks vmap rest of
             Inl e \<Rightarrow> Inl e
           | Inr bs \<Rightarrow>
               Inr (\<lparr> cb_vaccine_id = vid,
                      cb_vaccine_name = (case vmap vid of Some v \<Rightarrow> vac_name v | None \<Rightarrow> vid),
                      entries = es \<rparr> # bs)))"

subsection \<open>Matrix format\<close>

text \<open>
  The inner loop \<^verbatim>\<open>for c in cols\<close> for one dose \<open>d\<close>, and the outer loop
  \<^verbatim>\<open>for d in rows\<close>. \<open>by_key\<close> is the dictionary from (dose, vaccine id) to record.
\<close>

fun matrix_row ::
  "(string \<times> string \<rightharpoonup> Vaccination) \<Rightarrow> DoseEnum \<Rightarrow> MatrixCol list
     \<Rightarrow> error + MatrixCell option list" where
  "matrix_row by_key d [] = Inr []"
| "matrix_row by_key d (c # cs) =
     (case by_key (dose_value d, mc_vaccine_id c) of
        None \<Rightarrow>
          (case matrix_row by_key d cs of
             Inl e \<Rightarrow> Inl e
           | Inr cells \<Rightarrow> Inr (None # cells))
      | Some r \<Rightarrow>
          (case DoseEnum_call (dose r) of
             None \<Rightarrow> Inl ValueError
           | Some d' \<Rightarrow>
               (case matrix_row by_key d cs of
                  Inl e \<Rightarrow> Inl e
                | Inr cells \<Rightarrow>
                    Inr (Some \<lparr> cell_record_id = rec_id r,
                                cell_applied_at = applied_at r,
                                cell_dose = d' \<rparr> # cells))))"

fun matrix_grid ::
  "(string \<times> string \<rightharpoonup> Vaccination) \<Rightarrow> DoseEnum list \<Rightarrow> MatrixCol list
     \<Rightarrow> error + MatrixCell option list list" where
  "matrix_grid by_key [] cs = Inr []"
| "matrix_grid by_key (d # ds) cs =
     (case matrix_row by_key d cs of
        Inl e \<Rightarrow> Inl e
      | Inr row_cells \<Rightarrow>
          (case matrix_grid by_key ds cs of
             Inl e \<Rightarrow> Inl e
           | Inr g \<Rightarrow> Inr (row_cells # g)))"

subsection \<open>The endpoint\<close>

text \<open>
  \<^verbatim>\<open>GET /people/{pid}/card\<close>. \<^verbatim>\<open>order_by\<close> is a stable sort of the table's rows on
  the column; the two dictionaries built by assignment keep the last row stored under
  a key. The function only reads the database.
\<close>

definition get_card :: "Db \<Rightarrow> string \<Rightarrow> card_format \<Rightarrow> error + card" where
  "get_card db pid fmt =
     (case get_Person db pid of
        None \<Rightarrow> Inl (NotFound PersonEntity)
      | Some p \<Rightarrow>
          (case fmt of
             FormatList \<Rightarrow>
               let vmap = fold (\<lambda>v m. m(vac_id v \<mapsto> v)) (vaccines db) Map.empty;
                   bucket = fold (\<lambda>r b. setdefault_append b (vaccine_id r) r)
                              (sort_key applied_at
                                 (filter (\<lambda>r. person_id r = pid) (vaccinations db))) []
               in (case card_blocks vmap bucket of
                     Inl e \<Rightarrow> Inl e
                   | Inr blocks \<Rightarrow>
                       (case person_out p of
                          Inl e \<Rightarrow> Inl e
                        | Inr po \<Rightarrow>
                            Inr (CardList \<lparr> cl_person = po, cl_vaccines = blocks \<rparr>)))
           | FormatMatrix \<Rightarrow>
               let cs = map (\<lambda>v. \<lparr> mc_vaccine_id = vac_id v, mc_vaccine_name = vac_name v \<rparr>)
                          (sort_key vac_name (vaccines db));
                   rs = DOSE_ORDER;
                   by_key = fold (\<lambda>r m. m((dose r, vaccine_id r) \<mapsto> r))
                              (filter (\<lambda>r. person_id r = pid) (vaccinations db)) Map.empty
               in (case matrix_grid by_key rs cs of
                     Inl e \<Rightarrow> Inl e
                   | Inr g \<Rightarrow> Inr (CardMatrix \<lparr> rows = rs, cols = cs, grid = g \<rparr>))))"

section \<open>Requests in sequence, and the history of a pair\<close>

text \<open>
  A client that posts one request after the other: each request is the payload, the
  \<^verbatim>\<open>enforce_sequence\<close> flag and the id and time the inserted row would get. The database
  after each call is the one the next call sees.
\<close>

type_synonym request = "VaccinationIn \<times> bool \<times> string \<times> datetime"

fun submit_all :: "json_loads \<Rightarrow> request list \<Rightarrow> Db \<Rightarrow> Db" where
  "submit_all loads [] db = db"
| "submit_all loads ((payload, enf, nid, now) # reqs) db =
     submit_all loads reqs (snd (create_vaccination loads payload db enf nid now))"

text \<open>
  The person has a record of the vaccine with this dose label; and the triple a record
  is identified by in the unique constraint \<^verbatim>\<open>uq_person_vaccine_dose\<close>.
\<close>

abbreviation on_file :: "Db \<Rightarrow> string \<Rightarrow> string \<Rightarrow> string \<Rightarrow> bool" where
  "on_file db pid vid s \<equiv>
     (\<exists>r\<in>set (vaccinations db). person_id r = pid \<and> vaccine_id r = vid \<and> dose r = s)"

definition triple :: "Vaccination \<Rightarrow> string \<times> string \<times> string" where
  "triple r = (person_id r, vaccine_id r, dose r)"

section \<open>Example data\<close>

text \<open>
  The data of the test \<^verbatim>\<open>test_happy_path\<close>: a person, the vaccine "hepb" allowing
  D1, D2, D3, R1, and beside it a vaccine allowing D1, D2, R1 only, one allowing
  nothing, and one whose stored text does not decode. The decoder of the examples knows
  the three texts \<^verbatim>\<open>json.dumps\<close> wrote and fails on everything else.
\<close>

definition demo_loads :: json_loads where
  \<open>demo_loads s =
     (if s = ''["D1", "D2", "D3", "R1"]'' then Some [''D1'', ''D2'', ''D3'', ''R1'']
      else if s = ''["D1", "D2", "R1"]'' then Some [''D1'', ''D2'', ''R1'']
      else if s = ''[]'' then Some []
      else None)\<close>

definition ana :: Person where
  "ana = \<lparr> per_id = ''p1'', per_name = ''Ana Paula'', document = ''123'',
           sex = ''F'', age = 30 \<rparr>"

definition hepb :: Vaccine where
  \<open>hepb = \<lparr> vac_id = ''v1'', vac_name = ''Hepatite B'', vac_code = ''hepb'',
            allowed_doses = ''["D1", "D2", "D3", "R1"]'' \<rparr>\<close>

definition bcg :: Vaccine where
  \<open>bcg = \<lparr> vac_id = ''v2'', vac_name = ''BCG'', vac_code = ''bcg'',
           allowed_doses = ''["D1", "D2", "R1"]'' \<rparr>\<close>

definition none_allowed :: Vaccine where
  \<open>none_allowed = \<lparr> vac_id = ''v3'', vac_name = ''ROTAVIRUS'', vac_code = ''rotavirus'',
                    allowed_doses = ''[]'' \<rparr>\<close>

definition corrupt :: Vaccine where
  \<open>corrupt = \<lparr> vac_id = ''v4'', vac_name = ''MENINGO C'', vac_code = ''meningo-c'',
               allowed_doses = ''{not json'' \<rparr>\<close>

definition demo_db :: Db where
  "demo_db = \<lparr> people = [ana], vaccines = [hepb, bcg, none_allowed, corrupt],
               vaccinations = [] \<rparr>"

definition submission :: "string \<Rightarrow> DoseEnum \<Rightarrow> date \<Rightarrow> VaccinationIn" where
  "submission vid d day = \<lparr> in_person_id = ''p1'', in_vaccine_id = vid, in_dose = d,
       in_applied_at = day, in_lot = None, in_location = None \<rparr>"

definition stored :: "string \<Rightarrow> string \<Rightarrow> string \<Rightarrow> date \<Rightarrow> Vaccination" where
  "stored rid vid s day = \<lparr> rec_id = rid, person_id = ''p1'', vaccine_id = vid, dose = s,
       applied_at = day, lot = None, location = None, created_at = 0 \<rparr>"

section \<open>Facts about the enumerations and the sequence check\<close>

lemma ORDER_INDEX_simps:
  "ORDER_INDEX D1 = Some 0" "ORDER_INDEX D2 = Some 1" "ORDER_INDEX D3 = Some 2"
  "ORDER_INDEX R1 = Some 3" "ORDER_INDEX R2 = Some 4"
  by (simp_all add: ORDER_INDEX_def DOSE_ORDER_def)

lemma ORDER_INDEX_nth: "ORDER_INDEX d = Some k \<longleftrightarrow> k < length DOSE_ORDER \<and> DOSE_ORDER ! k = d"
  by (cases d; auto simp add: ORDER_INDEX_simps DOSE_ORDER_def nth_Cons' less_Suc_eq split: if_splits)

lemma DoseEnum_call_value: "DoseEnum_call (dose_value d) = Some d"
  by (cases d) (simp_all add: DoseEnum_call_def DoseEnum_members_def)

lemma dose_value_inj: "dose_value a = dose_value b \<longleftrightarrow> a = b"
  by (cases a; cases b; simp)

lemma check_prev_ok:
  "check_prev c ex ds = Inr u \<longleftrightarrow> (\<forall>d\<in>set ds. dose_value d \<in> ex)"
  by (induction ds) auto

lemma check_prev_first:
  "j < length ds \<Longrightarrow> dose_value (ds ! j) \<notin> ex \<Longrightarrow> (\<forall>i<j. dose_value (ds ! i) \<in> ex)
   \<Longrightarrow> check_prev c ex ds = Inl (SequenceViolation c (ds ! j))"
proof (induction ds arbitrary: j)
  case Nil
  then show ?case by simp
next
  case (Cons d ds)
  show ?case
  proof (cases j)
    case 0
    with Cons.prems show ?thesis by simp
  next
    case (Suc j')
    have hd: "dose_value d \<in> ex" using Cons.prems(3) Suc by (metis nth_Cons_0 zero_less_Suc)
    have "\<forall>i<j'. dose_value (ds ! i) \<in> ex" using Cons.prems(3) Suc by (metis Suc_less_eq nth_Cons_Suc)
    then have "check_prev c ex ds = Inl (SequenceViolation c (ds ! j'))"
      using Cons.IH[of j'] Cons.prems Suc by simp
    then show ?thesis using hd Suc by simp
  qed
qed

lemma check_prev_cases:
  "check_prev c ex ds = Inr () \<or>
   (\<exists>j<length ds. dose_value (ds ! j) \<notin> ex \<and> (\<forall>i<j. dose_value (ds ! i) \<in> ex)
      \<and> check_prev c ex ds = Inl (SequenceViolation c (ds ! j)))"
proof (induction ds)
  case Nil
  then show ?case by simp
next
  case (Cons d ds)
  show ?case
  proof (cases "dose_value d \<in> ex")
    case False
    then show ?thesis by (intro disjI2 exI[of _ 0]) simp
  next
    case True
    from Cons.IH show ?thesis
    proof
      assume "check_prev c ex ds = Inr ()"
      then show ?thesis using True by simp
    next
      assume "\<exists>j<length ds. dose_value (ds ! j) \<notin> ex \<and> (\<forall>i<j. dose_value (ds ! i) \<in> ex)
      \<and> check_prev c ex ds = Inl (SequenceViolation c (ds ! j))"
      then obtain j where j: "j < length ds" "dose_value (ds ! j) \<notin> ex" 
         "\<forall>i<j. dose_value (ds ! i) \<in> ex" "check_prev c ex ds = Inl (SequenceViolation c (ds ! j))" by blast
      have "\<forall>i<Suc j. dose_value ((d # ds) ! i) \<in> ex"
        using True j(3) by (auto simp: nth_Cons')
      then show ?thesis using j True
        by (intro disjI2 exI[of _ "Suc j"]) simp
    qed
  qed
qed

lemma existing_iff:
  "s \<in> set (map dose (filter (\<lambda>r. person_id r = pid \<and> vaccine_id r = vid) (vaccinations db)))
     \<longleftrightarrow> on_file db pid vid s"
  by auto

lemma ensure_dose_order_eq:
  "ORDER_INDEX d = Some k \<Longrightarrow>
   ensure_dose_order db pid vid d =
     check_prev d (set (map dose (filter (\<lambda>r. person_id r = pid \<and> vaccine_id r = vid)
        (vaccinations db)))) (take k DOSE_ORDER)"
  by (simp add: ensure_dose_order_def)

lemma ORDER_INDEX_total: "\<exists>k. ORDER_INDEX d = Some k \<and> k < 5"
  by (cases d) (simp_all add: ORDER_INDEX_simps)

lemma ensure_dose_order_ok_iff:
  assumes "ORDER_INDEX d = Some k"
  shows "ensure_dose_order db pid vid d = Inr u \<longleftrightarrow>
    (\<forall>i<k. on_file db pid vid (dose_value (DOSE_ORDER ! i)))"
proof -
  have k: "k < length DOSE_ORDER" using assms by (simp add: ORDER_INDEX_nth)
  have "set (take k DOSE_ORDER) = {DOSE_ORDER ! i | i. i < k}"
    using k by (fastforce simp: in_set_conv_nth)
  then show ?thesis
    unfolding ensure_dose_order_eq[OF assms] check_prev_ok existing_iff by auto
qed

lemma ensure_dose_order_first_missing:
  assumes "ORDER_INDEX d = Some k" "j < k"
    "\<not> on_file db pid vid (dose_value (DOSE_ORDER ! j))"
    "\<forall>i<j. on_file db pid vid (dose_value (DOSE_ORDER ! i))"
  shows "ensure_dose_order db pid vid d = Inl (SequenceViolation d (DOSE_ORDER ! j))"
proof -
  have k: "k < length DOSE_ORDER" using assms(1) by (simp add: ORDER_INDEX_nth)
  let ?ex = "set (map dose (filter (\<lambda>r. person_id r = pid \<and> vaccine_id r = vid) (vaccinations db)))"
  have 1: "j < length (take k DOSE_ORDER)" using k assms(2) by simp
  have 2: "dose_value (take k DOSE_ORDER ! j) \<notin> ?ex"
    using assms(2,3) unfolding existing_iff by simp
  have 3: "\<forall>i<j. dose_value (take k DOSE_ORDER ! i) \<in> ?ex"
    using assms(2,4) unfolding existing_iff by simp
  show ?thesis
    unfolding ensure_dose_order_eq[OF assms(1)]
    using check_prev_first[OF 1 2 3, of d] assms(2) by simp
qed

lemma ensure_dose_order_cases:
  "ensure_dose_order db pid vid d = Inr () \<or>
   (\<exists>m. ensure_dose_order db pid vid d = Inl (SequenceViolation d m))"
proof -
  obtain k where k: "ORDER_INDEX d = Some k" using ORDER_INDEX_total by blast
  show ?thesis unfolding ensure_dose_order_eq[OF k]
    using check_prev_cases[of d _ "take k DOSE_ORDER"] by blast
qed

section \<open>The outcomes of create_vaccination\<close>

lemma find_dup_None:
  "find (\<lambda>r. person_id r = pid \<and> vaccine_id r = vid \<and> dose r = s) (vaccinations db) = None
    \<longleftrightarrow> \<not> on_file db pid vid s"
  by (auto simp: find_None_iff)

lemma cv_no_person:
  "get_Person db (in_person_id payload) = None \<Longrightarrow>
   create_vaccination loads payload db enf nid now = (Inl (NotFound PersonEntity), db)"
  by (simp add: create_vaccination_def)

lemma cv_no_vaccine:
  "get_Person db (in_person_id payload) = Some p \<Longrightarrow>
   get_Vaccine db (in_vaccine_id payload) = None \<Longrightarrow>
   create_vaccination loads payload db enf nid now = (Inl (NotFound VaccineEntity), db)"
  by (simp add: create_vaccination_def)

lemma cv_not_allowed:
  "get_Person db (in_person_id payload) = Some p \<Longrightarrow>
   get_Vaccine db (in_vaccine_id payload) = Some v \<Longrightarrow>
   dose_value (in_dose payload) \<notin> set (allowed_list loads v) \<Longrightarrow>
   create_vaccination loads payload db enf nid now =
     (Inl (DoseNotAllowed (in_dose payload) (vac_name v)), db)"
  by (simp add: create_vaccination_def ensure_dose_allowed_def)

lemma cv_order_fail:
  "get_Person db (in_person_id payload) = Some p \<Longrightarrow>
   get_Vaccine db (in_vaccine_id payload) = Some v \<Longrightarrow>
   dose_value (in_dose payload) \<in> set (allowed_list loads v) \<Longrightarrow>
   ensure_dose_order db (in_person_id payload) (in_vaccine_id payload) (in_dose payload) = Inl e \<Longrightarrow>
   create_vaccination loads payload db True nid now = (Inl e, db)"
  by (simp add: create_vaccination_def ensure_dose_allowed_def)

lemma cv_dup:
  "get_Person db (in_person_id payload) = Some p \<Longrightarrow>
   get_Vaccine db (in_vaccine_id payload) = Some v \<Longrightarrow>
   dose_value (in_dose payload) \<in> set (allowed_list loads v) \<Longrightarrow>
   (enf \<longrightarrow> ensure_dose_order db (in_person_id payload) (in_vaccine_id payload) (in_dose payload) = Inr ()) \<Longrightarrow>
   on_file db (in_person_id payload) (in_vaccine_id payload) (dose_value (in_dose payload)) \<Longrightarrow>
   create_vaccination loads payload db enf nid now = (Inl DuplicateDose, db)"
  using find_dup_None[of "in_person_id payload" "in_vaccine_id payload" "dose_value (in_dose payload)" db]
  by (cases "find (\<lambda>r. person_id r = in_person_id payload \<and> vaccine_id r = in_vaccine_id payload
        \<and> dose r = dose_value (in_dose payload)) (vaccinations db)")
     (simp_all add: create_vaccination_def ensure_dose_allowed_def)

lemma cv_accept:
  "get_Person db (in_person_id payload) = Some p \<Longrightarrow>
   get_Vaccine db (in_vaccine_id payload) = Some v \<Longrightarrow>
   dose_value (in_dose payload) \<in> set (allowed_list loads v) \<Longrightarrow>
   (enf \<longrightarrow> ensure_dose_order db (in_person_id payload) (in_vaccine_id payload) (in_dose payload) = Inr ()) \<Longrightarrow>
   \<not> on_file db (in_person_id payload) (in_vaccine_id payload) (dose_value (in_dose payload)) \<Longrightarrow>
   create_vaccination loads payload db enf nid now =
     (Inr \<lparr> out_id = nid, out_person_id = in_person_id payload,
            out_vaccine_id = in_vaccine_id payload, out_dose = in_dose payload,
            out_applied_at = in_applied_at payload, out_lot = in_lot payload,
            out_location = in_location payload, out_created_at = now \<rparr>,
      db \<lparr> vaccinations := vaccinations db @
            [\<lparr> rec_id = nid, person_id = in_person_id payload,
               vaccine_id = in_vaccine_id payload, dose = dose_value (in_dose payload),
               applied_at = in_applied_at payload, lot = in_lot payload,
               location = in_location payload, created_at = now \<rparr>] \<rparr>)"
  using find_dup_None[of "in_person_id payload" "in_vaccine_id payload" "dose_value (in_dose payload)" db]
  by (simp add: create_vaccination_def ensure_dose_allowed_def DoseEnum_call_value Let_def)

lemma cv_allowed_outcomes:
  assumes "get_Person db (in_person_id payload) = Some p"
    "get_Vaccine db (in_vaccine_id payload) = Some v"
    "dose_value (in_dose payload) \<in> set (allowed_list loads v)"
  shows "(enf \<and> (\<exists>m. create_vaccination loads payload db enf nid now =
              (Inl (SequenceViolation (in_dose payload) m), db)))
    \<or> create_vaccination loads payload db enf nid now = (Inl DuplicateDose, db)
    \<or> (\<exists>out db'. create_vaccination loads payload db enf nid now = (Inr out, db'))"
proof (cases "enf \<and> ensure_dose_order db (in_person_id payload) (in_vaccine_id payload)
                (in_dose payload) \<noteq> Inr ()")
  case True
  then obtain m where "ensure_dose_order db (in_person_id payload) (in_vaccine_id payload)
      (in_dose payload) = Inl (SequenceViolation (in_dose payload) m)"
    using ensure_dose_order_cases by blast
  then show ?thesis using cv_order_fail[OF assms, of _ nid now] True by auto
next
  case False
  then have ok: "enf \<longrightarrow> ensure_dose_order db (in_person_id payload) (in_vaccine_id payload)
                (in_dose payload) = Inr ()" by blast
  show ?thesis
  proof (cases "on_file db (in_person_id payload) (in_vaccine_id payload)
                  (dose_value (in_dose payload))")
    case True
    then show ?thesis using cv_dup[OF assms ok] by blast
  next
    case False
    then show ?thesis using cv_accept[OF assms ok] by blast
  qed
qed

lemma get_Person_None: "get_Person db pid = None \<longleftrightarrow> (\<forall>p\<in>set (people db). per_id p \<noteq> pid)"
  by (auto simp: get_Person_def find_None_iff)

lemma get_Vaccine_None: "get_Vaccine db vid = None \<longleftrightarrow> (\<forall>v\<in>set (vaccines db). vac_id v \<noteq> vid)"
  by (auto simp: get_Vaccine_def find_None_iff)

section \<open>Facts about the example data\<close>

lemmas demo_defs = demo_db_def demo_loads_def ana_def hepb_def bcg_def none_allowed_def
  corrupt_def submission_def stored_def get_Person_def get_Vaccine_def

lemma demo_allowed:
  "allowed_list demo_loads hepb = [''D1'', ''D2'', ''D3'', ''R1'']"
  "allowed_list demo_loads bcg = [''D1'', ''D2'', ''R1'']"
  "allowed_list demo_loads none_allowed = []"
  "allowed_list demo_loads corrupt = [''D1'', ''D2'', ''D3'', ''R1'', ''R2'']"
  by (simp_all add: allowed_list_def demo_defs DOSE_ORDER_def)

lemma demo_get0:
  "get_Person demo_db ''p1'' = Some ana"
  "get_Vaccine demo_db ''v1'' = Some hepb"
  "get_Vaccine demo_db ''v2'' = Some bcg"
  "get_Vaccine demo_db ''v3'' = Some none_allowed"
  "get_Vaccine demo_db ''v4'' = Some corrupt"
  by (simp_all add: demo_defs)

lemma submission_sel:
  "in_person_id (submission vid d day) = ''p1''"
  "in_vaccine_id (submission vid d day) = vid"
  "in_dose (submission vid d day) = d"
  by (simp_all add: submission_def)

lemma demo_get:
  "get_Person (demo_db \<lparr>vaccinations := rs\<rparr>) ''p1'' = Some ana"
  "get_Vaccine (demo_db \<lparr>vaccinations := rs\<rparr>) ''v1'' = Some hepb"
  "get_Vaccine (demo_db \<lparr>vaccinations := rs\<rparr>) ''v2'' = Some bcg"
  "get_Vaccine (demo_db \<lparr>vaccinations := rs\<rparr>) ''v3'' = Some none_allowed"
  "get_Vaccine (demo_db \<lparr>vaccinations := rs\<rparr>) ''v4'' = Some corrupt"
  by (simp_all add: demo_defs)

lemma ORDER_INDEX_submission:
  "ORDER_INDEX (in_dose (submission vid D1 day)) = Some 0"
  "ORDER_INDEX (in_dose (submission vid D2 day)) = Some 1"
  "ORDER_INDEX (in_dose (submission vid D3 day)) = Some 2"
  "ORDER_INDEX (in_dose (submission vid R1 day)) = Some 3"
  "ORDER_INDEX (in_dose (submission vid R2 day)) = Some 4"
  by (simp_all add: submission_sel ORDER_INDEX_simps)

section \<open>All outcomes of create_vaccination, and uniqueness\<close>

lemma cv_outcomes:
  "(\<exists>e. create_vaccination loads payload db enf nid now = (Inl e, db)
        \<and> (e = NotFound PersonEntity \<or> e = NotFound VaccineEntity
           \<or> (\<exists>n. e = DoseNotAllowed (in_dose payload) n)
           \<or> (\<exists>m. e = SequenceViolation (in_dose payload) m)
           \<or> e = DuplicateDose))
   \<or> (\<exists>p v. get_Person db (in_person_id payload) = Some p
        \<and> get_Vaccine db (in_vaccine_id payload) = Some v
        \<and> dose_value (in_dose payload) \<in> set (allowed_list loads v)
        \<and> (enf \<longrightarrow> ensure_dose_order db (in_person_id payload) (in_vaccine_id payload)
                      (in_dose payload) = Inr ())
        \<and> \<not> on_file db (in_person_id payload) (in_vaccine_id payload)
               (dose_value (in_dose payload))
        \<and> create_vaccination loads payload db enf nid now =
            (Inr \<lparr> out_id = nid, out_person_id = in_person_id payload,
                   out_vaccine_id = in_vaccine_id payload, out_dose = in_dose payload,
                   out_applied_at = in_applied_at payload, out_lot = in_lot payload,
                   out_location = in_location payload, out_created_at = now \<rparr>,
             db \<lparr> vaccinations := vaccinations db @
                   [\<lparr> rec_id = nid, person_id = in_person_id payload,
                      vaccine_id = in_vaccine_id payload,
                      dose = dose_value (in_dose payload),
                      applied_at = in_applied_at payload, lot = in_lot payload,
                      location = in_location payload, created_at = now \<rparr>] \<rparr>))"
  (is "?rej \<or> ?acc")
proof (cases "get_Person db (in_person_id payload)")
  case None
  then show ?thesis using cv_no_person[OF None] by blast
next
  case (Some p)
  note p = this
  show ?thesis
  proof (cases "get_Vaccine db (in_vaccine_id payload)")
    case None
    then show ?thesis using cv_no_vaccine[OF p None] by blast
  next
    case (Some v)
    note v = this
    show ?thesis
    proof (cases "dose_value (in_dose payload) \<in> set (allowed_list loads v)")
      case False
      then show ?thesis using cv_not_allowed[OF p v False] by blast
    next
      case True
      note al = this
      let ?o = "ensure_dose_order db (in_person_id payload) (in_vaccine_id payload)
                  (in_dose payload)"
      show ?thesis
      proof (cases "enf \<and> ?o \<noteq> Inr ()")
        case True
        then obtain m where m: "?o = Inl (SequenceViolation (in_dose payload) m)"
          using ensure_dose_order_cases[of db "in_person_id payload" "in_vaccine_id payload"
              "in_dose payload"] by blast
        have "create_vaccination loads payload db enf nid now
                = (Inl (SequenceViolation (in_dose payload) m), db)"
          using cv_order_fail[OF p v al m, of nid now] True by simp
        then show ?thesis by blast
      next
        case False
        then have ok: "enf \<longrightarrow> ?o = Inr ()" by blast
        show ?thesis
        proof (cases "on_file db (in_person_id payload) (in_vaccine_id payload)
                        (dose_value (in_dose payload))")
          case True
          then show ?thesis using cv_dup[OF p v al ok True] by blast
        next
          case False
          have ?acc
            using cv_accept[OF p v al ok False, of nid now] p v al ok False by blast
          then show ?thesis ..
        qed
      qed
    qed
  qed
qed

lemmas cv_eval = create_vaccination_def ensure_dose_allowed_def allowed_list_def
  ensure_dose_order_def ORDER_INDEX_simps DOSE_ORDER_def DoseEnum_call_def DoseEnum_members_def
  demo_defs

lemma demo_run_seq:
  "create_vaccination demo_loads (submission ''v1'' D2 (2025, 2, 10)) demo_db True ''r1'' 0
     = (Inl (SequenceViolation D2 D1), demo_db)"
  by (simp add: cv_eval)

lemma demo_run_accept:
  "create_vaccination demo_loads (submission ''v1'' D1 (2025, 1, 10)) demo_db True ''r1'' 7
     = (Inr \<lparr> out_id = ''r1'', out_person_id = ''p1'', out_vaccine_id = ''v1'', out_dose = D1,
              out_applied_at = (2025, 1, 10), out_lot = None, out_location = None,
              out_created_at = 7 \<rparr>,
        demo_db \<lparr>vaccinations := [\<lparr> rec_id = ''r1'', person_id = ''p1'', vaccine_id = ''v1'',
            dose = ''D1'', applied_at = (2025, 1, 10), lot = None, location = None,
            created_at = 7 \<rparr>]\<rparr>)"
  by (simp add: cv_eval)

lemma demo_run_dup:
  "create_vaccination demo_loads (submission ''v1'' D1 (2025, 1, 11))
      (demo_db \<lparr>vaccinations := [stored ''r1'' ''v1'' ''D1'' (2025, 1, 10)]\<rparr>) True ''r2'' 8
     = (Inl DuplicateDose, demo_db \<lparr>vaccinations := [stored ''r1'' ''v1'' ''D1'' (2025, 1, 10)]\<rparr>)"
  by (simp add: cv_eval)

lemma demo_run_not_allowed:
  "create_vaccination demo_loads (submission ''v1'' R2 (2025, 1, 11)) demo_db False ''r2'' 8
     = (Inl (DoseNotAllowed R2 ''Hepatite B''), demo_db)"
  by (simp add: cv_eval)

lemma demo_run_no_person:
  "create_vaccination demo_loads (submission ''v1'' D1 (2025, 1, 11) \<lparr>in_person_id := ''p9''\<rparr>)
      demo_db True ''r2'' 8
     = (Inl (NotFound PersonEntity), demo_db)"
  by (simp add: cv_eval)

lemma ensure_dose_allowed_default:
  "ensure_dose_allowed (\<lambda>s. Some (map dose_value DOSE_ORDER)) v d = Inr ()"
  by (cases d) (simp_all add: ensure_dose_allowed_def allowed_list_def DOSE_ORDER_def)

lemma ensure_dose_allowed_unreadable:
  "loads (allowed_doses v) = None \<Longrightarrow> ensure_dose_allowed loads v d = Inr ()"
  by (cases d) (simp_all add: ensure_dose_allowed_def allowed_list_def DOSE_ORDER_def)

lemma cv_distinct:
  assumes "distinct (map triple (vaccinations db))"
  shows "distinct (map triple (vaccinations (snd (create_vaccination loads payload db enf nid now))))"
proof -
  from cv_outcomes[of loads payload db enf nid now]
  show ?thesis
  proof
    assume "\<exists>e. create_vaccination loads payload db enf nid now = (Inl e, db)
        \<and> (e = NotFound PersonEntity \<or> e = NotFound VaccineEntity
           \<or> (\<exists>n. e = DoseNotAllowed (in_dose payload) n)
           \<or> (\<exists>m. e = SequenceViolation (in_dose payload) m)
           \<or> e = DuplicateDose)"
    then have "snd (create_vaccination loads payload db enf nid now) = db" by auto
    then show ?thesis using assms by simp
  next
    assume "\<exists>p v. get_Person db (in_person_id payload) = Some p
        \<and> get_Vaccine db (in_vaccine_id payload) = Some v
        \<and> dose_value (in_dose payload) \<in> set (allowed_list loads v)
        \<and> (enf \<longrightarrow> ensure_dose_order db (in_person_id payload) (in_vaccine_id payload)
                      (in_dose payload) = Inr ())
        \<and> \<not> on_file db (in_person_id payload) (in_vaccine_id payload)
               (dose_value (in_dose payload))
        \<and> create_vaccination loads payload db enf nid now =
            (Inr \<lparr> out_id = nid, out_person_id = in_person_id payload,
                   out_vaccine_id = in_vaccine_id payload, out_dose = in_dose payload,
                   out_applied_at = in_applied_at payload, out_lot = in_lot payload,
                   out_location = in_location payload, out_created_at = now \<rparr>,
             db \<lparr> vaccinations := vaccinations db @
                   [\<lparr> rec_id = nid, person_id = in_person_id payload,
                      vaccine_id = in_vaccine_id payload,
                      dose = dose_value (in_dose payload),
                      applied_at = in_applied_at payload, lot = in_lot payload,
                      location = in_location payload, created_at = now \<rparr>] \<rparr>)"
    then have nd: "\<not> on_file db (in_person_id payload) (in_vaccine_id payload)
               (dose_value (in_dose payload))"
      and s: "vaccinations (snd (create_vaccination loads payload db enf nid now)) =
          vaccinations db @
                   [\<lparr> rec_id = nid, person_id = in_person_id payload,
                      vaccine_id = in_vaccine_id payload,
                      dose = dose_value (in_dose payload),
                      applied_at = in_applied_at payload, lot = in_lot payload,
                      location = in_location payload, created_at = now \<rparr>]"
      by auto
    have "(in_person_id payload, in_vaccine_id payload, dose_value (in_dose payload))
            \<notin> triple ` set (vaccinations db)"
      using nd by (auto simp: triple_def)
    then show ?thesis unfolding s using assms by (simp add: triple_def)
  qed
qed

lemma submit_all_distinct:
  "distinct (map triple (vaccinations db)) \<Longrightarrow>
   distinct (map triple (vaccinations (submit_all loads reqs db)))"
proof (induction reqs arbitrary: db)
  case Nil
  then show ?case by simp
next
  case (Cons rq reqs)
  obtain payload enf nid now where rq: "rq = (payload, enf, nid, now)" by (cases rq)
  show ?case unfolding rq submit_all.simps
    by (rule Cons.IH) (rule cv_distinct[OF Cons.prems])
qed

lemma cv_duplicate_rejected:
  assumes "on_file db (in_person_id payload) (in_vaccine_id payload)
             (dose_value (in_dose payload))"
  shows "\<exists>e. create_vaccination loads payload db enf nid now = (Inl e, db)"
  using cv_outcomes[of loads payload db enf nid now] assms by blast

section \<open>Facts about the card views\<close>

lemma insort_key_map:
  assumes "\<And>y. f (g y) = f y"
  shows "insort_key f (g x) (map g xs) = map g (insort_key f x xs)"
  by (induction xs) (simp_all add: assms)

lemma sort_key_map:
  assumes "\<And>y. f (g y) = f y"
  shows "sort_key f (map g xs) = map g (sort_key f xs)"
  by (induction xs) (simp_all add: insort_key_map[of f g, OF assms])

lemma vmap_map:
  assumes "\<And>v. vac_id (g v) = vac_id v"
  shows "fold (\<lambda>v m. m(vac_id v \<mapsto> v)) (map g vs) (\<lambda>k. map_option g (m k))
           = (\<lambda>k. map_option g (fold (\<lambda>v m. m(vac_id v \<mapsto> v)) vs m k))"
proof (induction vs arbitrary: m)
  case Nil
  show ?case by simp
next
  case (Cons a vs)
  have "(\<lambda>k. map_option g (m k))(vac_id (g a) \<mapsto> g a)
          = (\<lambda>k. map_option g ((m(vac_id a \<mapsto> a)) k))"
    by (auto simp: assms)
  then show ?case by (simp only: list.map fold_simps Cons.IH)
qed

lemma card_blocks_cong:
  assumes "\<And>k. map_option vac_name (m1 k) = map_option vac_name (m2 k)"
  shows "card_blocks m1 b = card_blocks m2 b"
proof (induction b)
  case Nil
  show ?case by simp
next
  case (Cons kv b)
  obtain k rs where kv: "kv = (k, rs)" by (cases kv)
  have h: "(case m1 k of None \<Rightarrow> k | Some v \<Rightarrow> vac_name v)
          = (case m2 k of None \<Rightarrow> k | Some v \<Rightarrow> vac_name v)"
    using assms[of k] by (cases "m1 k"; cases "m2 k") simp_all
  show ?case by (simp only: kv card_blocks.simps Cons.IH h)
qed

lemma get_card_ignores_allowed_doses:
  "get_card (db \<lparr>vaccines := map (\<lambda>v. v \<lparr>allowed_doses := f v\<rparr>) (vaccines db)\<rparr>) pid fmt
     = get_card db pid fmt"
proof -
  let ?g = "\<lambda>v. v \<lparr>allowed_doses := f v\<rparr>"
  let ?db = "db \<lparr>vaccines := map ?g (vaccines db)\<rparr>"
  have p: "get_Person ?db pid = get_Person db pid" by (simp add: get_Person_def)
  have s: "sort_key vac_name (map ?g (vaccines db)) = map ?g (sort_key vac_name (vaccines db))"
    by (rule sort_key_map) simp
  have "fold (\<lambda>v m. m(vac_id v \<mapsto> v)) (map ?g (vaccines db)) (\<lambda>k. map_option ?g (Map.empty k))
           = (\<lambda>k. map_option ?g (fold (\<lambda>v m. m(vac_id v \<mapsto> v)) (vaccines db) Map.empty k))"
    by (rule vmap_map) simp
  then have m: "fold (\<lambda>v m. m(vac_id v \<mapsto> v)) (map ?g (vaccines db)) Map.empty
           = (\<lambda>k. map_option ?g (fold (\<lambda>v m. m(vac_id v \<mapsto> v)) (vaccines db) Map.empty k))"
    by simp
  have b: "card_blocks (fold (\<lambda>v m. m(vac_id v \<mapsto> v)) (map ?g (vaccines db)) Map.empty) bk
           = card_blocks (fold (\<lambda>v m. m(vac_id v \<mapsto> v)) (vaccines db) Map.empty) bk" for bk
    unfolding m by (rule card_blocks_cong) (simp add: option.map_comp comp_def)
  show ?thesis
    by (cases fmt; simp add: get_card_def p s b comp_def split: option.splits)
qed

lemma by_key_fold_Some:
  "fold (\<lambda>r m. m((dose r, vaccine_id r) \<mapsto> r)) rs m0 k = Some x \<Longrightarrow>
   m0 k = Some x \<or> (x \<in> set rs \<and> (dose x, vaccine_id x) = k)"
proof (induction rs arbitrary: m0)
  case Nil
  then show ?case by simp
next
  case (Cons a rs)
  from Cons.IH[of "m0((dose a, vaccine_id a) \<mapsto> a)"] Cons.prems
  have "(m0((dose a, vaccine_id a) \<mapsto> a)) k = Some x \<or> (x \<in> set rs \<and> (dose x, vaccine_id x) = k)"
    by simp
  then show ?case by (auto split: if_splits)
qed

lemma by_key_fold_dom:
  "fold (\<lambda>r m. m((dose r, vaccine_id r) \<mapsto> r)) rs m0 k \<noteq> None \<longleftrightarrow>
   m0 k \<noteq> None \<or> (\<exists>x\<in>set rs. (dose x, vaccine_id x) = k)"
proof (induction rs arbitrary: m0)
  case Nil
  then show ?case by simp
next
  case (Cons a rs)
  show ?case unfolding fold_simps Cons.IH by auto
qed

lemma matrix_row_closed:
  assumes "\<And>k r. by_key k = Some r \<Longrightarrow> fst k = dose r"
  shows "matrix_row by_key d cs =
           Inr (map (\<lambda>c. map_option (\<lambda>r. \<lparr> cell_record_id = rec_id r, cell_applied_at = applied_at r, cell_dose = d \<rparr>) (by_key (dose_value d, mc_vaccine_id c))) cs)"
proof (induction cs)
  case Nil
  show ?case by simp
next
  case (Cons c cs)
  show ?case
  proof (cases "by_key (dose_value d, mc_vaccine_id c)")
    case None
    then show ?thesis using Cons.IH by simp
  next
    case (Some r)
    from assms[OF Some] have "dose r = dose_value d" by simp
    then have "DoseEnum_call (dose r) = Some d" by (simp add: DoseEnum_call_value)
    then show ?thesis using Some Cons.IH by simp
  qed
qed

lemma matrix_grid_closed:
  assumes "\<And>k r. by_key k = Some r \<Longrightarrow> fst k = dose r"
  shows "matrix_grid by_key ds cs =
           Inr (map (\<lambda>d. map (\<lambda>c. map_option (\<lambda>r. \<lparr> cell_record_id = rec_id r, cell_applied_at = applied_at r, cell_dose = d \<rparr>)
                  (by_key (dose_value d, mc_vaccine_id c))) cs) ds)"
  by (induction ds) (simp_all add: matrix_row_closed[of by_key, OF assms])

lemma by_key_fst:
  "fold (\<lambda>r m. m((dose r, vaccine_id r) \<mapsto> r)) rs Map.empty k = Some r \<Longrightarrow> fst k = dose r"
proof -
  assume "fold (\<lambda>r m. m((dose r, vaccine_id r) \<mapsto> r)) rs Map.empty k = Some r"
  from by_key_fold_Some[OF this] have "(dose r, vaccine_id r) = k" by simp
  then show ?thesis by auto
qed

lemma get_card_matrix_closed:
  assumes "get_Person db pid = Some p"
  shows "get_card db pid FormatMatrix =
    Inr (CardMatrix \<lparr> rows = DOSE_ORDER,
       cols = map (\<lambda>v. \<lparr> mc_vaccine_id = vac_id v, mc_vaccine_name = vac_name v \<rparr>)
                (sort_key vac_name (vaccines db)),
       grid = map (\<lambda>d. map (\<lambda>c. map_option (\<lambda>r. \<lparr> cell_record_id = rec_id r, cell_applied_at = applied_at r, cell_dose = d \<rparr>)
                  (fold (\<lambda>r m. m((dose r, vaccine_id r) \<mapsto> r))
                     (filter (\<lambda>r. person_id r = pid) (vaccinations db)) Map.empty
                     (dose_value d, mc_vaccine_id c)))
                (map (\<lambda>v. \<lparr> mc_vaccine_id = vac_id v, mc_vaccine_name = vac_name v \<rparr>)
                (sort_key vac_name (vaccines db)))) DOSE_ORDER \<rparr>)"
proof -
  let ?bk = "fold (\<lambda>r m. m((dose r, vaccine_id r) \<mapsto> r))
                     (filter (\<lambda>r. person_id r = pid) (vaccinations db)) Map.empty"
  have g: "matrix_grid ?bk ds cs =
           Inr (map (\<lambda>d. map (\<lambda>c. map_option (\<lambda>r. \<lparr> cell_record_id = rec_id r, cell_applied_at = applied_at r, cell_dose = d \<rparr>)
                  (?bk (dose_value d, mc_vaccine_id c))) cs) ds)" for ds cs
    by (rule matrix_grid_closed) (rule by_key_fst)
  show ?thesis
    unfolding get_card_def Let_def g
    by (simp only: assms option.case card_format.case sum.case)
qed

lemma matrix_demo:
  "get_card (demo_db \<lparr>vaccinations := [stored ''r1'' ''v1'' ''D1'' (2025, 1, 10),
                                       stored ''r2'' ''v1'' ''D2'' (2025, 2, 10)]\<rparr>)
      ''p1'' FormatMatrix
   = Inr (CardMatrix \<lparr> rows = [D1, D2, D3, R1, R2],
        cols = [\<lparr> mc_vaccine_id = ''v2'', mc_vaccine_name = ''BCG'' \<rparr>,
                \<lparr> mc_vaccine_id = ''v1'', mc_vaccine_name = ''Hepatite B'' \<rparr>,
                \<lparr> mc_vaccine_id = ''v4'', mc_vaccine_name = ''MENINGO C'' \<rparr>,
                \<lparr> mc_vaccine_id = ''v3'', mc_vaccine_name = ''ROTAVIRUS'' \<rparr>],
        grid = [[None, Some \<lparr> cell_record_id = ''r1'', cell_applied_at = (2025, 1, 10),
                               cell_dose = D1 \<rparr>, None, None],
                [None, Some \<lparr> cell_record_id = ''r2'', cell_applied_at = (2025, 2, 10),
                               cell_dose = D2 \<rparr>, None, None],
                [None, None, None, None],
                [None, None, None, None],
                [None, None, None, None]] \<rparr>)"
  by (simp add: get_card_def demo_defs DOSE_ORDER_def DoseEnum_call_def DoseEnum_members_def)

lemma setdefault_append_keys:
  "map fst (setdefault_append b k r) = (if k \<in> fst ` set b then map fst b else map fst b @ [k])"
  by (induction b k r rule: setdefault_append.induct) auto

lemma setdefault_append_mset:
  "mset (concat (map snd (setdefault_append b k r))) = mset (concat (map snd b)) + {#r#}"
  by (induction b k r rule: setdefault_append.induct) auto

lemma setdefault_append_map_of:
  "map_of (setdefault_append b k r) k' =
     (if k' = k then Some ((case map_of b k of None \<Rightarrow> [] | Some rs \<Rightarrow> rs) @ [r])
      else map_of b k')"
  by (induction b k r rule: setdefault_append.induct) auto

lemma bucket_snoc:
  "fold (\<lambda>r b. setdefault_append b (vaccine_id r) r) (xs @ [x]) b0 =
     setdefault_append (fold (\<lambda>r b. setdefault_append b (vaccine_id r) r) xs b0) (vaccine_id x) x"
  by simp

lemma bucket_keys:
  "distinct (map fst (fold (\<lambda>r b. setdefault_append b (vaccine_id r) r) xs []))
   \<and> fst ` set (fold (\<lambda>r b. setdefault_append b (vaccine_id r) r) xs []) = vaccine_id ` set xs"
proof (induction xs rule: rev_induct)
  case Nil
  show ?case by simp
next
  case (snoc x xs)
  let ?G = "fold (\<lambda>r b. setdefault_append b (vaccine_id r) r) xs []"
  have s: "fst ` set (setdefault_append ?G (vaccine_id x) x)
             = set (map fst (setdefault_append ?G (vaccine_id x) x))" by simp
  show ?case
    unfolding bucket_snoc s setdefault_append_keys
    using snoc.IH by (auto simp: image_iff)
qed

lemma bucket_map_of:
  "map_of (fold (\<lambda>r b. setdefault_append b (vaccine_id r) r) xs []) k =
     (if k \<in> vaccine_id ` set xs then Some (filter (\<lambda>r. vaccine_id r = k) xs) else None)"
proof (induction xs arbitrary: k rule: rev_induct)
  case Nil
  show ?case by simp
next
  case (snoc x xs)
  let ?G = "fold (\<lambda>r b. setdefault_append b (vaccine_id r) r) xs []"
  show ?case
  proof (cases "k = vaccine_id x")
    case True
    have "(case map_of ?G (vaccine_id x) of None \<Rightarrow> [] | Some rs \<Rightarrow> rs)
            = filter (\<lambda>r. vaccine_id r = vaccine_id x) xs"
    proof (cases "vaccine_id x \<in> vaccine_id ` set xs")
      case True
      then show ?thesis using snoc.IH[of "vaccine_id x"] by simp
    next
      case False
      then have "filter (\<lambda>r. vaccine_id r = vaccine_id x) xs = []"
        unfolding filter_empty_conv by (metis imageI)
      then show ?thesis using False snoc.IH[of "vaccine_id x"] by simp
    qed
    then show ?thesis unfolding bucket_snoc setdefault_append_map_of using True by simp
  next
    case False
    then show ?thesis unfolding bucket_snoc setdefault_append_map_of using snoc.IH[of k] by auto
  qed
qed

lemma bucket_entry:
  assumes "(k, rs) \<in> set (fold (\<lambda>r b. setdefault_append b (vaccine_id r) r) xs [])"
  shows "k \<in> vaccine_id ` set xs \<and> rs = filter (\<lambda>r. vaccine_id r = k) xs"
proof -
  let ?G = "fold (\<lambda>r b. setdefault_append b (vaccine_id r) r) xs []"
  have "distinct (map fst ?G)" using bucket_keys[of xs] by blast
  then have "map_of ?G k = Some rs" using assms by simp
  then show ?thesis unfolding bucket_map_of by (simp split: if_splits)
qed

lemma bucket_mset:
  "mset (concat (map snd (fold (\<lambda>r b. setdefault_append b (vaccine_id r) r) xs []))) = mset xs"
proof (induction xs rule: rev_induct)
  case Nil
  show ?case by simp
next
  case (snoc x xs)
  show ?case unfolding bucket_snoc setdefault_append_mset snoc.IH by simp
qed

lemma card_entries_ok:
  assumes "\<forall>r\<in>set rs. \<exists>d. dose r = dose_value d"
  shows "\<exists>es. card_entries rs = Inr es
    \<and> map (\<lambda>e. (record_id e, dose_value (ce_dose e), ce_applied_at e, ce_lot e, ce_location e)) es
      = map (\<lambda>r. (rec_id r, dose r, applied_at r, lot r, location r)) rs"
  using assms
proof (induction rs)
  case Nil
  show ?case by simp
next
  case (Cons r rs)
  from Cons.prems obtain d where d: "dose r = dose_value d" by auto
  from Cons.IH Cons.prems obtain es where es: "card_entries rs = Inr es"
    "map (\<lambda>e. (record_id e, dose_value (ce_dose e), ce_applied_at e, ce_lot e, ce_location e)) es
      = map (\<lambda>r. (rec_id r, dose r, applied_at r, lot r, location r)) rs"
    by auto
  show ?case using d es by (simp add: DoseEnum_call_value)
qed

lemma card_blocks_ok:
  assumes "\<forall>kv\<in>set b. \<forall>r\<in>set (snd kv). \<exists>d. dose r = dose_value d"
  shows "\<exists>bs. card_blocks vmap b = Inr bs
    \<and> map cb_vaccine_id bs = map fst b
    \<and> map (\<lambda>x. map (\<lambda>e. (record_id e, dose_value (ce_dose e), ce_applied_at e, ce_lot e,
                          ce_location e)) (entries x)) bs
      = map (\<lambda>kv. map (\<lambda>r. (rec_id r, dose r, applied_at r, lot r, location r)) (snd kv)) b
    \<and> list_all2 (\<lambda>x kv. cb_vaccine_id x = fst kv
          \<and> map (\<lambda>e. (record_id e, dose_value (ce_dose e), ce_applied_at e, ce_lot e,
                          ce_location e)) (entries x)
            = map (\<lambda>r. (rec_id r, dose r, applied_at r, lot r, location r)) (snd kv)) bs b"
  using assms
proof (induction b)
  case Nil
  show ?case by simp
next
  case (Cons kv b)
  obtain k rs where kv: "kv = (k, rs)" by (cases kv)
  have "\<forall>r\<in>set rs. \<exists>d. dose r = dose_value d" using Cons.prems kv by simp
  from card_entries_ok[OF this] obtain es where es: "card_entries rs = Inr es"
    "map (\<lambda>e. (record_id e, dose_value (ce_dose e), ce_applied_at e, ce_lot e, ce_location e)) es
      = map (\<lambda>r. (rec_id r, dose r, applied_at r, lot r, location r)) rs"
    by blast
  have "\<forall>kv\<in>set b. \<forall>r\<in>set (snd kv). \<exists>d. dose r = dose_value d" using Cons.prems by simp
  from Cons.IH[OF this] obtain bs where bs: "card_blocks vmap b = Inr bs"
    "map cb_vaccine_id bs = map fst b"
    "map (\<lambda>x. map (\<lambda>e. (record_id e, dose_value (ce_dose e), ce_applied_at e, ce_lot e,
                          ce_location e)) (entries x)) bs
      = map (\<lambda>kv. map (\<lambda>r. (rec_id r, dose r, applied_at r, lot r, location r)) (snd kv)) b"
    "list_all2 (\<lambda>x kv. cb_vaccine_id x = fst kv
          \<and> map (\<lambda>e. (record_id e, dose_value (ce_dose e), ce_applied_at e, ce_lot e,
                          ce_location e)) (entries x)
            = map (\<lambda>r. (rec_id r, dose r, applied_at r, lot r, location r)) (snd kv)) bs b"
    by blast
  show ?case unfolding kv using es bs by simp
qed

lemma person_out_ok:
  "sex p = gender_value g \<Longrightarrow>
   person_out p = Inr \<lparr> po_id = per_id p, po_name = per_name p, po_document = document p,
                        po_sex = g, po_age = age p \<rparr>"
  by (cases g) (simp_all add: person_out_def GenderEnum_call_def GenderEnum_members_def)

lemma list_demo:
  "get_card (demo_db \<lparr>vaccinations := [stored ''r1'' ''v1'' ''D2'' (2025, 2, 10),
                                       stored ''r2'' ''v2'' ''D1'' (2025, 1, 5),
                                       stored ''r3'' ''v1'' ''D1'' (2025, 1, 10)]\<rparr>)
      ''p1'' FormatList
   = Inr (CardList \<lparr>
       cl_person = \<lparr> po_id = ''p1'', po_name = ''Ana Paula'', po_document = ''123'',
                      po_sex = G_F, po_age = 30 \<rparr>,
       cl_vaccines =
         [\<lparr> cb_vaccine_id = ''v2'', cb_vaccine_name = ''BCG'',
            entries = [\<lparr> record_id = ''r2'', ce_dose = D1, ce_applied_at = (2025, 1, 5),
                         ce_lot = None, ce_location = None \<rparr>] \<rparr>,
          \<lparr> cb_vaccine_id = ''v1'', cb_vaccine_name = ''Hepatite B'',
            entries = [\<lparr> record_id = ''r3'', ce_dose = D1, ce_applied_at = (2025, 1, 10),
                         ce_lot = None, ce_location = None \<rparr>,
                       \<lparr> record_id = ''r1'', ce_dose = D2, ce_applied_at = (2025, 2, 10),
                         ce_lot = None, ce_location = None \<rparr>] \<rparr>] \<rparr>)"
  by (simp add: get_card_def demo_defs person_out_def GenderEnum_call_def GenderEnum_members_def
      DoseEnum_call_def DoseEnum_members_def)

section \<open>Claims about the validator\<close>

text \<open>
  Claim C10. Existence checks come before every dose check: when no person has the
  payload's person id the call raises NotFound for the person, whatever the vaccine id,
  the dose and the history are; when the person exists and no vaccine has the payload's
  vaccine id it raises NotFound for the vaccine. In both cases the database is unchanged,
  and the result is none of DoseNotAllowed, SequenceViolation, DuplicateDose.
\<close>

theorem existence_checks_first:
  "((\<forall>p\<in>set (people db). per_id p \<noteq> in_person_id payload) \<longrightarrow>
      create_vaccination loads payload db enf nid now = (Inl (NotFound PersonEntity), db))
   \<and> ((\<exists>p\<in>set (people db). per_id p = in_person_id payload) \<longrightarrow>
       (\<forall>v\<in>set (vaccines db). vac_id v \<noteq> in_vaccine_id payload) \<longrightarrow>
      create_vaccination loads payload db enf nid now = (Inl (NotFound VaccineEntity), db))"
proof (intro conjI impI)
  assume "\<forall>p\<in>set (people db). per_id p \<noteq> in_person_id payload"
  then have "get_Person db (in_person_id payload) = None" by (simp add: get_Person_None)
  then show "create_vaccination loads payload db enf nid now = (Inl (NotFound PersonEntity), db)"
    by (rule cv_no_person)
next
  assume "\<exists>p\<in>set (people db). per_id p = in_person_id payload"
    and nv: "\<forall>v\<in>set (vaccines db). vac_id v \<noteq> in_vaccine_id payload"
  then obtain p where "get_Person db (in_person_id payload) = Some p"
    using get_Person_None[of db "in_person_id payload"] by (cases "get_Person db (in_person_id payload)") auto
  moreover have "get_Vaccine db (in_vaccine_id payload) = None" using nv by (simp add: get_Vaccine_None)
  ultimately show "create_vaccination loads payload db enf nid now = (Inl (NotFound VaccineEntity), db)"
    by (rule cv_no_vaccine)
qed

theorem existence_checks_first_witness:
  "\<not> (\<exists>p\<in>set (people demo_db).
          per_id p = in_person_id (submission ''v9'' R2 (2025, 1, 10) \<lparr>in_person_id := ''p9''\<rparr>))
   \<and> create_vaccination demo_loads (submission ''v9'' R2 (2025, 1, 10) \<lparr>in_person_id := ''p9''\<rparr>)
        demo_db True ''r1'' 0 = (Inl (NotFound PersonEntity), demo_db)
   \<and> (\<exists>p\<in>set (people demo_db). per_id p = in_person_id (submission ''v9'' R2 (2025, 1, 10)))
   \<and> \<not> (\<exists>v\<in>set (vaccines demo_db). vac_id v = in_vaccine_id (submission ''v9'' R2 (2025, 1, 10)))
   \<and> create_vaccination demo_loads (submission ''v9'' R2 (2025, 1, 10))
        demo_db True ''r1'' 0 = (Inl (NotFound VaccineEntity), demo_db)"
proof -
  let ?a = "submission ''v9'' R2 (2025, 1, 10) \<lparr>in_person_id := ''p9''\<rparr>"
  let ?b = "submission ''v9'' R2 (2025, 1, 10)"
  have 1: "\<forall>p\<in>set (people demo_db). per_id p \<noteq> in_person_id ?a"
    by (simp add: demo_defs)
  have 2: "\<exists>p\<in>set (people demo_db). per_id p = in_person_id ?b"
    by (simp add: demo_defs)
  have 3: "\<forall>v\<in>set (vaccines demo_db). vac_id v \<noteq> in_vaccine_id ?b"
    by (simp add: demo_defs)
  show ?thesis
    using 1 2 3 existence_checks_first[of demo_db ?a demo_loads True "''r1''" 0]
      existence_checks_first[of demo_db ?b demo_loads True "''r1''" 0]
    by blast
qed

text \<open>
  Claim C2. For a submission whose person and vaccine exist, the call raises
  DoseNotAllowed exactly when the value of the candidate dose is not in the vaccine's
  allowed list; the error then names the candidate dose and the vaccine, and the database
  is unchanged. A vaccine whose allowed list is empty rejects every candidate this way.
  The verdict is the same with \<^verbatim>\<open>enforce_sequence\<close> on and off.
\<close>

theorem dose_not_allowed_iff:
  assumes "get_Person db (in_person_id payload) = Some p"
    and "get_Vaccine db (in_vaccine_id payload) = Some v"
  shows "((\<exists>d n. fst (create_vaccination loads payload db enf nid now) = Inl (DoseNotAllowed d n))
            \<longleftrightarrow> dose_value (in_dose payload) \<notin> set (allowed_list loads v))
    \<and> (dose_value (in_dose payload) \<notin> set (allowed_list loads v) \<longrightarrow>
          create_vaccination loads payload db enf nid now =
            (Inl (DoseNotAllowed (in_dose payload) (vac_name v)), db))
    \<and> (allowed_list loads v = [] \<longrightarrow>
          create_vaccination loads payload db enf nid now =
            (Inl (DoseNotAllowed (in_dose payload) (vac_name v)), db))
    \<and> ((\<exists>d n. fst (create_vaccination loads payload db True nid now) = Inl (DoseNotAllowed d n))
          \<longleftrightarrow> (\<exists>d n. fst (create_vaccination loads payload db False nid now)
                         = Inl (DoseNotAllowed d n)))"
proof -
  have no: "dose_value (in_dose payload) \<notin> set (allowed_list loads v) \<Longrightarrow>
      create_vaccination loads payload db e nid now =
        (Inl (DoseNotAllowed (in_dose payload) (vac_name v)), db)" for e
    using cv_not_allowed[OF assms] by blast
  have yes: "dose_value (in_dose payload) \<in> set (allowed_list loads v) \<Longrightarrow>
      \<not> (\<exists>d n. fst (create_vaccination loads payload db e nid now) = Inl (DoseNotAllowed d n))" for e
    using cv_allowed_outcomes[OF assms, of loads e nid now] by auto
  have iff: "(\<exists>d n. fst (create_vaccination loads payload db e nid now) = Inl (DoseNotAllowed d n))
            \<longleftrightarrow> dose_value (in_dose payload) \<notin> set (allowed_list loads v)" for e
    using no[of e] yes[of e] by (cases "dose_value (in_dose payload) \<in> set (allowed_list loads v)") auto
  show ?thesis
  proof (intro conjI impI)
    show "(\<exists>d n. fst (create_vaccination loads payload db enf nid now) = Inl (DoseNotAllowed d n))
            \<longleftrightarrow> dose_value (in_dose payload) \<notin> set (allowed_list loads v)" by (rule iff)
    show "create_vaccination loads payload db enf nid now =
            (Inl (DoseNotAllowed (in_dose payload) (vac_name v)), db)"
      if "dose_value (in_dose payload) \<notin> set (allowed_list loads v)" using that by (rule no)
    show "create_vaccination loads payload db enf nid now =
            (Inl (DoseNotAllowed (in_dose payload) (vac_name v)), db)"
      if "allowed_list loads v = []" using that no[of enf] by simp
    show "(\<exists>d n. fst (create_vaccination loads payload db True nid now) = Inl (DoseNotAllowed d n))
          \<longleftrightarrow> (\<exists>d n. fst (create_vaccination loads payload db False nid now)
                         = Inl (DoseNotAllowed d n))"
      unfolding iff ..
  qed
qed

theorem dose_not_allowed_iff_witness:
  "create_vaccination demo_loads (submission ''v1'' R2 (2025, 1, 10)) demo_db True ''r1'' 0
     = (Inl (DoseNotAllowed R2 ''Hepatite B''), demo_db)
   \<and> create_vaccination demo_loads (submission ''v3'' D1 (2025, 1, 10)) demo_db False ''r1'' 0
     = (Inl (DoseNotAllowed D1 ''ROTAVIRUS''), demo_db)
   \<and> \<not> (\<exists>d n. fst (create_vaccination demo_loads (submission ''v1'' D1 (2025, 1, 10)) demo_db
                      True ''r1'' 0) = Inl (DoseNotAllowed d n))"
proof -
  have p: "get_Person demo_db (in_person_id (submission vid d day)) = Some ana" for vid d day
    by (simp add: submission_sel demo_get0)
  have v1: "get_Vaccine demo_db (in_vaccine_id (submission ''v1'' d day)) = Some hepb" for d day
    by (simp add: submission_sel demo_get0)
  have v3: "get_Vaccine demo_db (in_vaccine_id (submission ''v3'' d day)) = Some none_allowed" for d day
    by (simp add: submission_sel demo_get0)
  have a1: "dose_value (in_dose (submission ''v1'' R2 (2025, 1, 10)))
              \<notin> set (allowed_list demo_loads hepb)"
    by (simp add: demo_allowed submission_sel)
  have a2: "allowed_list demo_loads none_allowed = []"
    by (simp add: demo_allowed)
  have a3: "\<not> dose_value (in_dose (submission ''v1'' D1 (2025, 1, 10)))
              \<notin> set (allowed_list demo_loads hepb)"
    by (simp add: demo_allowed submission_sel)
  have c1: "create_vaccination demo_loads (submission ''v1'' R2 (2025, 1, 10)) demo_db True ''r1'' 0
     = (Inl (DoseNotAllowed R2 (vac_name hepb)), demo_db)"
    using a1 dose_not_allowed_iff[where db = demo_db
          and payload = "submission ''v1'' R2 (2025, 1, 10)"
          and loads = demo_loads and enf = True and nid = "''r1''" and now = 0, OF p v1]
    by (simp add: submission_sel)
  have c2: "create_vaccination demo_loads (submission ''v3'' D1 (2025, 1, 10)) demo_db False ''r1'' 0
     = (Inl (DoseNotAllowed D1 (vac_name none_allowed)), demo_db)"
    using a2 dose_not_allowed_iff[where db = demo_db
          and payload = "submission ''v3'' D1 (2025, 1, 10)"
          and loads = demo_loads and enf = False and nid = "''r1''" and now = 0, OF p v3]
    by (simp add: submission_sel)
  have c3: "\<not> (\<exists>d n. fst (create_vaccination demo_loads (submission ''v1'' D1 (2025, 1, 10)) demo_db
                      True ''r1'' 0) = Inl (DoseNotAllowed d n))"
    using a3 dose_not_allowed_iff[where db = demo_db
          and payload = "submission ''v1'' D1 (2025, 1, 10)"
          and loads = demo_loads and enf = True and nid = "''r1''" and now = 0, OF p v1]
    by blast
  show ?thesis using c1 c2 c3 by (simp add: hepb_def none_allowed_def)
qed

text \<open>
  Claim C6. For an existing person and vaccine the three checks run in the order
  allowed dose, sequence (with \<^verbatim>\<open>enforce_sequence\<close>), uniqueness, and the first one
  that fails decides the error: a dose outside the allowed list gives DoseNotAllowed;
  an allowed dose with a prior dose missing gives SequenceViolation when the sequence is
  enforced; an allowed dose that passes the sequence check (or skips it) and is already
  on file gives DuplicateDose; otherwise the call succeeds. In particular a candidate
  that is both outside the allowed list and a duplicate gets DoseNotAllowed, not
  DuplicateDose, and an allowed candidate that both violates the sequence and is a
  duplicate gets SequenceViolation.
\<close>

theorem checks_in_order:
  assumes "get_Person db (in_person_id payload) = Some p"
    and "get_Vaccine db (in_vaccine_id payload) = Some v"
    and "ORDER_INDEX (in_dose payload) = Some k"
  shows "(dose_value (in_dose payload) \<notin> set (allowed_list loads v) \<longrightarrow>
            create_vaccination loads payload db enf nid now =
              (Inl (DoseNotAllowed (in_dose payload) (vac_name v)), db))
    \<and> (dose_value (in_dose payload) \<in> set (allowed_list loads v) \<longrightarrow> enf \<longrightarrow>
          \<not> (\<forall>i<k. on_file db (in_person_id payload) (in_vaccine_id payload)
                       (dose_value (DOSE_ORDER ! i))) \<longrightarrow>
          (\<exists>m. create_vaccination loads payload db enf nid now =
                  (Inl (SequenceViolation (in_dose payload) m), db)))
    \<and> (dose_value (in_dose payload) \<in> set (allowed_list loads v) \<longrightarrow>
          (enf \<longrightarrow> (\<forall>i<k. on_file db (in_person_id payload) (in_vaccine_id payload)
                       (dose_value (DOSE_ORDER ! i)))) \<longrightarrow>
          on_file db (in_person_id payload) (in_vaccine_id payload)
            (dose_value (in_dose payload)) \<longrightarrow>
          create_vaccination loads payload db enf nid now = (Inl DuplicateDose, db))
    \<and> (dose_value (in_dose payload) \<in> set (allowed_list loads v) \<longrightarrow>
          (enf \<longrightarrow> (\<forall>i<k. on_file db (in_person_id payload) (in_vaccine_id payload)
                       (dose_value (DOSE_ORDER ! i)))) \<longrightarrow>
          \<not> on_file db (in_person_id payload) (in_vaccine_id payload)
            (dose_value (in_dose payload)) \<longrightarrow>
          (\<exists>out db'. create_vaccination loads payload db enf nid now = (Inr out, db')))
    \<and> (dose_value (in_dose payload) \<notin> set (allowed_list loads v) \<longrightarrow>
          on_file db (in_person_id payload) (in_vaccine_id payload)
            (dose_value (in_dose payload)) \<longrightarrow>
          fst (create_vaccination loads payload db enf nid now) \<noteq> Inl DuplicateDose)
    \<and> (dose_value (in_dose payload) \<in> set (allowed_list loads v) \<longrightarrow>
          \<not> (\<forall>i<k. on_file db (in_person_id payload) (in_vaccine_id payload)
                       (dose_value (DOSE_ORDER ! i))) \<longrightarrow>
          on_file db (in_person_id payload) (in_vaccine_id payload)
            (dose_value (in_dose payload)) \<longrightarrow>
          (\<exists>m. fst (create_vaccination loads payload db True nid now) =
                  Inl (SequenceViolation (in_dose payload) m)))"
proof -
  let ?pid = "in_person_id payload" and ?vid = "in_vaccine_id payload" and ?d = "in_dose payload"
  let ?pre = "\<forall>i<k. on_file db ?pid ?vid (dose_value (DOSE_ORDER ! i))"
  have ok: "ensure_dose_order db ?pid ?vid ?d = Inr () \<longleftrightarrow> ?pre"
    by (rule ensure_dose_order_ok_iff[OF assms(3)])
  have viol: "\<exists>m. create_vaccination loads payload db True nid now =
                  (Inl (SequenceViolation ?d m), db)"
    if al: "dose_value ?d \<in> set (allowed_list loads v)" and np: "\<not> ?pre"
  proof -
    from np ok obtain m where
      "ensure_dose_order db ?pid ?vid ?d = Inl (SequenceViolation ?d m)"
      using ensure_dose_order_cases[of db ?pid ?vid ?d] by auto
    then show ?thesis using cv_order_fail[OF assms(1,2) al] by blast
  qed
  have 1: "dose_value ?d \<notin> set (allowed_list loads v) \<longrightarrow>
            create_vaccination loads payload db enf nid now =
              (Inl (DoseNotAllowed ?d (vac_name v)), db)"
    using cv_not_allowed[OF assms(1,2)] by blast
  have 2: "dose_value ?d \<in> set (allowed_list loads v) \<longrightarrow> enf \<longrightarrow> \<not> ?pre \<longrightarrow>
          (\<exists>m. create_vaccination loads payload db enf nid now =
                  (Inl (SequenceViolation ?d m), db))"
    using viol by auto
  have 3: "dose_value ?d \<in> set (allowed_list loads v) \<longrightarrow> (enf \<longrightarrow> ?pre) \<longrightarrow>
          on_file db ?pid ?vid (dose_value ?d) \<longrightarrow>
          create_vaccination loads payload db enf nid now = (Inl DuplicateDose, db)"
    using cv_dup[OF assms(1,2)] ok by blast
  have 4: "dose_value ?d \<in> set (allowed_list loads v) \<longrightarrow> (enf \<longrightarrow> ?pre) \<longrightarrow>
          \<not> on_file db ?pid ?vid (dose_value ?d) \<longrightarrow>
          (\<exists>out db'. create_vaccination loads payload db enf nid now = (Inr out, db'))"
    using cv_accept[OF assms(1,2), of loads enf nid now] ok by blast
  have 5: "dose_value ?d \<notin> set (allowed_list loads v) \<longrightarrow>
          on_file db ?pid ?vid (dose_value ?d) \<longrightarrow>
          fst (create_vaccination loads payload db enf nid now) \<noteq> Inl DuplicateDose"
    using 1 by auto
  have 6: "dose_value ?d \<in> set (allowed_list loads v) \<longrightarrow> \<not> ?pre \<longrightarrow>
          on_file db ?pid ?vid (dose_value ?d) \<longrightarrow>
          (\<exists>m. fst (create_vaccination loads payload db True nid now) =
                  Inl (SequenceViolation ?d m))"
  proof (intro impI)
    assume al: "dose_value ?d \<in> set (allowed_list loads v)" and np: "\<not> ?pre"
    from viol[OF al np] obtain m where
      "create_vaccination loads payload db True nid now = (Inl (SequenceViolation ?d m), db)"
      by blast
    then have "fst (create_vaccination loads payload db True nid now) =
                 Inl (SequenceViolation ?d m)" by simp
    then show "\<exists>m. fst (create_vaccination loads payload db True nid now) =
                  Inl (SequenceViolation ?d m)" ..
  qed
  show ?thesis using 1 2 3 4 5 6 by (intro conjI)
qed


theorem checks_in_order_witness:
  "create_vaccination demo_loads (submission ''v2'' D3 (2025, 3, 10))
       (demo_db \<lparr>vaccinations := [stored ''r0'' ''v2'' ''D3'' (2025, 1, 10)]\<rparr>) True ''r1'' 0
     = (Inl (DoseNotAllowed D3 ''BCG''),
        demo_db \<lparr>vaccinations := [stored ''r0'' ''v2'' ''D3'' (2025, 1, 10)]\<rparr>)
   \<and> (\<exists>m. create_vaccination demo_loads (submission ''v1'' D2 (2025, 3, 10))
       (demo_db \<lparr>vaccinations := [stored ''r0'' ''v1'' ''D2'' (2025, 1, 10)]\<rparr>) True ''r1'' 0
     = (Inl (SequenceViolation D2 m),
        demo_db \<lparr>vaccinations := [stored ''r0'' ''v1'' ''D2'' (2025, 1, 10)]\<rparr>))
   \<and> create_vaccination demo_loads (submission ''v1'' D2 (2025, 3, 10))
       (demo_db \<lparr>vaccinations := [stored ''r0'' ''v1'' ''D2'' (2025, 1, 10)]\<rparr>) False ''r1'' 0
     = (Inl DuplicateDose,
        demo_db \<lparr>vaccinations := [stored ''r0'' ''v1'' ''D2'' (2025, 1, 10)]\<rparr>)
   \<and> (\<exists>out db'. create_vaccination demo_loads (submission ''v1'' D1 (2025, 3, 10))
       (demo_db \<lparr>vaccinations := [stored ''r0'' ''v1'' ''D2'' (2025, 1, 10)]\<rparr>) True ''r1'' 0
     = (Inr out, db'))"
proof -
  let ?dbA = "demo_db \<lparr>vaccinations := [stored ''r0'' ''v2'' ''D3'' (2025, 1, 10)]\<rparr>"
  let ?dbB = "demo_db \<lparr>vaccinations := [stored ''r0'' ''v1'' ''D2'' (2025, 1, 10)]\<rparr>"
  let ?a = "submission ''v2'' D3 (2025, 3, 10)"
  let ?b = "submission ''v1'' D2 (2025, 3, 10)"
  let ?c = "submission ''v1'' D1 (2025, 3, 10)"
  have pA: "get_Person ?dbA (in_person_id ?a) = Some ana"
    and vA: "get_Vaccine ?dbA (in_vaccine_id ?a) = Some bcg"
    and pB: "get_Person ?dbB (in_person_id ?b) = Some ana"
    and vB: "get_Vaccine ?dbB (in_vaccine_id ?b) = Some hepb"
    and pC: "get_Person ?dbB (in_person_id ?c) = Some ana"
    and vC: "get_Vaccine ?dbB (in_vaccine_id ?c) = Some hepb"
    by (simp_all add: submission_sel demo_get)
  have nA: "dose_value (in_dose ?a) \<notin> set (allowed_list demo_loads bcg)"
    by (simp add: submission_sel demo_allowed)
  have aB: "dose_value (in_dose ?b) \<in> set (allowed_list demo_loads hepb)"
    and aC: "dose_value (in_dose ?c) \<in> set (allowed_list demo_loads hepb)"
    by (simp_all add: submission_sel demo_allowed)
  have dupB: "on_file ?dbB (in_person_id ?b) (in_vaccine_id ?b) (dose_value (in_dose ?b))"
    by (simp add: submission_sel stored_def)
  have preB: "\<not> (\<forall>i<1. on_file ?dbB (in_person_id ?b) (in_vaccine_id ?b)
                       (dose_value (DOSE_ORDER ! i)))"
    by (simp add: submission_sel stored_def DOSE_ORDER_def)
  have preC: "\<forall>i<0. on_file ?dbB (in_person_id ?c) (in_vaccine_id ?c)
                       (dose_value (DOSE_ORDER ! i))"
    by simp
  have ndupC: "\<not> on_file ?dbB (in_person_id ?c) (in_vaccine_id ?c) (dose_value (in_dose ?c))"
    by (simp add: submission_sel stored_def)
  note tA = checks_in_order[where loads = demo_loads and nid = "''r1''" and now = 0,
      OF pA vA ORDER_INDEX_submission(3)]
  note tB = checks_in_order[where loads = demo_loads and nid = "''r1''" and now = 0,
      OF pB vB ORDER_INDEX_submission(2)]
  note tC = checks_in_order[where loads = demo_loads and nid = "''r1''" and now = 0,
      OF pC vC ORDER_INDEX_submission(1)]
  have 1: "create_vaccination demo_loads ?a ?dbA True ''r1'' 0
             = (Inl (DoseNotAllowed D3 (vac_name bcg)), ?dbA)"
    using tA[of True] nA by (simp add: submission_sel)
  have 2: "\<exists>m. create_vaccination demo_loads ?b ?dbB True ''r1'' 0
             = (Inl (SequenceViolation D2 m), ?dbB)"
    using tB[of True] aB preB by (simp add: submission_sel)
  have 3: "create_vaccination demo_loads ?b ?dbB False ''r1'' 0 = (Inl DuplicateDose, ?dbB)"
    using tB[of False] aB dupB by blast
  have 4: "\<exists>out db'. create_vaccination demo_loads ?c ?dbB True ''r1'' 0 = (Inr out, db')"
    using tC[of True] aC preC ndupC by blast
  show ?thesis using 1 2 3 4 by (simp add: bcg_def)
qed

text \<open>
  Claim C9. With the sequence enforced, for an existing person and vaccine and an allowed
  candidate dose at index \<open>k\<close> of the global order: when the dose at index \<open>j < k\<close> is
  not on file for the pair and every dose at a lower index is, the call raises
  SequenceViolation naming the dose at index \<open>j\<close>, the missing prior dose of lowest
  index, however many later ones are missing too. D3 against an empty history reports
  D1, not D2.
\<close>

theorem lowest_missing_dose_reported:
  assumes "get_Person db (in_person_id payload) = Some p"
    and "get_Vaccine db (in_vaccine_id payload) = Some v"
    and "dose_value (in_dose payload) \<in> set (allowed_list loads v)"
    and "ORDER_INDEX (in_dose payload) = Some k"
    and "j < k"
    and "\<not> on_file db (in_person_id payload) (in_vaccine_id payload)
             (dose_value (DOSE_ORDER ! j))"
    and "\<forall>i<j. on_file db (in_person_id payload) (in_vaccine_id payload)
             (dose_value (DOSE_ORDER ! i))"
  shows "ensure_dose_order db (in_person_id payload) (in_vaccine_id payload) (in_dose payload)
           = Inl (SequenceViolation (in_dose payload) (DOSE_ORDER ! j))
    \<and> create_vaccination loads payload db True nid now
           = (Inl (SequenceViolation (in_dose payload) (DOSE_ORDER ! j)), db)"
proof -
  have e: "ensure_dose_order db (in_person_id payload) (in_vaccine_id payload) (in_dose payload)
           = Inl (SequenceViolation (in_dose payload) (DOSE_ORDER ! j))"
    by (rule ensure_dose_order_first_missing[OF assms(4-7)])
  then show ?thesis using cv_order_fail[OF assms(1-3) e] by simp
qed

theorem lowest_missing_dose_reported_witness:
  "create_vaccination demo_loads (submission ''v1'' D3 (2025, 3, 10)) demo_db True ''r1'' 0
     = (Inl (SequenceViolation D3 D1), demo_db)
   \<and> create_vaccination demo_loads (submission ''v1'' R1 (2025, 3, 10))
        (demo_db \<lparr>vaccinations := [stored ''r0'' ''v1'' ''D1'' (2025, 1, 10)]\<rparr>) True ''r1'' 0
     = (Inl (SequenceViolation R1 D2),
        demo_db \<lparr>vaccinations := [stored ''r0'' ''v1'' ''D1'' (2025, 1, 10)]\<rparr>)"
proof -
  let ?db = "demo_db \<lparr>vaccinations := [stored ''r0'' ''v1'' ''D1'' (2025, 1, 10)]\<rparr>"
  let ?a = "submission ''v1'' D3 (2025, 3, 10)"
  let ?b = "submission ''v1'' R1 (2025, 3, 10)"
  have pA: "get_Person demo_db (in_person_id ?a) = Some ana"
    and vA: "get_Vaccine demo_db (in_vaccine_id ?a) = Some hepb"
    by (simp_all add: submission_sel demo_get0)
  have pB: "get_Person ?db (in_person_id ?b) = Some ana"
    and vB: "get_Vaccine ?db (in_vaccine_id ?b) = Some hepb"
    by (simp_all add: submission_sel demo_get)
  have aA: "dose_value (in_dose ?a) \<in> set (allowed_list demo_loads hepb)"
    and aB: "dose_value (in_dose ?b) \<in> set (allowed_list demo_loads hepb)"
    by (simp_all add: submission_sel demo_allowed)
  have mA: "\<not> on_file demo_db (in_person_id ?a) (in_vaccine_id ?a) (dose_value (DOSE_ORDER ! 0))"
    by (simp add: demo_db_def)
  have lA: "\<forall>i<0. on_file demo_db (in_person_id ?a) (in_vaccine_id ?a)
              (dose_value (DOSE_ORDER ! i))"
    by simp
  have mB: "\<not> on_file ?db (in_person_id ?b) (in_vaccine_id ?b) (dose_value (DOSE_ORDER ! 1))"
    by (simp add: stored_def DOSE_ORDER_def)
  have lB: "\<forall>i<1. on_file ?db (in_person_id ?b) (in_vaccine_id ?b)
              (dose_value (DOSE_ORDER ! i))"
    by (simp add: stored_def DOSE_ORDER_def submission_sel)
  have 1: "create_vaccination demo_loads ?a demo_db True ''r1'' 0
     = (Inl (SequenceViolation (in_dose ?a) (DOSE_ORDER ! 0)), demo_db)"
    using lowest_missing_dose_reported[OF pA vA aA ORDER_INDEX_submission(3) _ mA lA,
        of "''r1''" 0] by simp
  have 2: "create_vaccination demo_loads ?b ?db True ''r1'' 0
     = (Inl (SequenceViolation (in_dose ?b) (DOSE_ORDER ! 1)), ?db)"
    using lowest_missing_dose_reported[OF pB vB aB ORDER_INDEX_submission(4) _ mB lB,
        of "''r1''" 0] by simp
  show ?thesis using 1 2 by (simp add: submission_sel DOSE_ORDER_def)
qed

text \<open>
  Claim C1. With the sequence enforced, a submission is accepted only if every dose at
  an index below the candidate's index in \<^verbatim>\<open>DOSE_ORDER\<close> is on file for the person and
  the vaccine; a candidate at index 0 passes \<^verbatim>\<open>ensure_dose_order\<close> whatever the history
  is; and the prior doses are those of the global order, not of the vaccine's allowed list:
  for a vaccine that allows only D1, D2 and R1, with D1 and D2 on file and no D3, R1 is
  rejected for the missing D3.
\<close>

theorem sequence_prerequisites:
  "(fst (create_vaccination loads payload db True nid now) = Inr out \<longrightarrow>
      ORDER_INDEX (in_dose payload) = Some k \<longrightarrow>
      (\<forall>i<k. on_file db (in_person_id payload) (in_vaccine_id payload)
                (dose_value (DOSE_ORDER ! i))))
   \<and> (ORDER_INDEX d = Some 0 \<longrightarrow> ensure_dose_order db pid vid d = Inr ())
   \<and> (get_Person db (in_person_id payload) = Some p \<longrightarrow>
      get_Vaccine db (in_vaccine_id payload) = Some v \<longrightarrow>
      set (allowed_list loads v) = {''D1'', ''D2'', ''R1''} \<longrightarrow>
      in_dose payload = R1 \<longrightarrow>
      on_file db (in_person_id payload) (in_vaccine_id payload) ''D1'' \<longrightarrow>
      on_file db (in_person_id payload) (in_vaccine_id payload) ''D2'' \<longrightarrow>
      \<not> on_file db (in_person_id payload) (in_vaccine_id payload) ''D3'' \<longrightarrow>
      create_vaccination loads payload db True nid now = (Inl (SequenceViolation R1 D3), db))"
proof (intro conjI impI)
  assume acc: "fst (create_vaccination loads payload db True nid now) = Inr out"
    and k: "ORDER_INDEX (in_dose payload) = Some k"
  let ?pid = "in_person_id payload" and ?vid = "in_vaccine_id payload" and ?d = "in_dose payload"
  obtain p where p: "get_Person db ?pid = Some p"
    using acc cv_no_person[of db payload loads True nid now]
    by (cases "get_Person db ?pid") auto
  obtain v where v: "get_Vaccine db ?vid = Some v"
    using acc cv_no_vaccine[OF p, of loads True nid now]
    by (cases "get_Vaccine db ?vid") auto
  have al: "dose_value ?d \<in> set (allowed_list loads v)"
  proof (rule ccontr)
    assume "dose_value ?d \<notin> set (allowed_list loads v)"
    from cv_not_allowed[OF p v this, of True nid now] acc show False by simp
  qed
  have "ensure_dose_order db ?pid ?vid ?d = Inr ()"
    using acc cv_order_fail[OF p v al, of _ nid now]
    by (cases "ensure_dose_order db ?pid ?vid ?d") auto
  then show "\<forall>i<k. on_file db ?pid ?vid (dose_value (DOSE_ORDER ! i))"
    using ensure_dose_order_ok_iff[OF k] by blast
next
  assume "ORDER_INDEX d = Some 0"
  then show "ensure_dose_order db pid vid d = Inr ()"
    by (simp add: ensure_dose_order_def)
next
  let ?pid = "in_person_id payload" and ?vid = "in_vaccine_id payload"
  assume p: "get_Person db ?pid = Some p" and v: "get_Vaccine db ?vid = Some v"
    and al: "set (allowed_list loads v) = {''D1'', ''D2'', ''R1''}"
    and d: "in_dose payload = R1"
    and h1: "on_file db ?pid ?vid ''D1''" and h2: "on_file db ?pid ?vid ''D2''"
    and h3: "\<not> on_file db ?pid ?vid ''D3''"
  have a: "dose_value (in_dose payload) \<in> set (allowed_list loads v)"
    using al d by simp
  have k: "ORDER_INDEX (in_dose payload) = Some 3" using d by (simp add: ORDER_INDEX_simps)
  have m: "\<not> on_file db ?pid ?vid (dose_value (DOSE_ORDER ! 2))"
    using h3 by (simp add: DOSE_ORDER_def)
  have l: "\<forall>i<2. on_file db ?pid ?vid (dose_value (DOSE_ORDER ! i))"
  proof (intro allI impI)
    fix i :: nat assume "i < 2"
    then have "i = 0 \<or> i = 1" by auto
    then show "on_file db ?pid ?vid (dose_value (DOSE_ORDER ! i))"
      using h1 h2 by (auto simp: DOSE_ORDER_def)
  qed
  have "ensure_dose_order db ?pid ?vid (in_dose payload)
          = Inl (SequenceViolation (in_dose payload) (DOSE_ORDER ! 2))"
    by (rule ensure_dose_order_first_missing[OF k _ m l]) simp
  then show "create_vaccination loads payload db True nid now
               = (Inl (SequenceViolation R1 D3), db)"
    using cv_order_fail[OF p v a, of _ nid now] d by (simp add: DOSE_ORDER_def)
qed


theorem sequence_prerequisites_witness:
  "fst (create_vaccination demo_loads (submission ''v1'' D2 (2025, 2, 10))
          (demo_db \<lparr>vaccinations := [stored ''r0'' ''v1'' ''D1'' (2025, 1, 10)]\<rparr>)
          True ''r1'' 0)
     = Inr \<lparr> out_id = ''r1'', out_person_id = ''p1'', out_vaccine_id = ''v1'', out_dose = D2,
             out_applied_at = (2025, 2, 10), out_lot = None, out_location = None,
             out_created_at = 0 \<rparr>
   \<and> on_file (demo_db \<lparr>vaccinations := [stored ''r0'' ''v1'' ''D1'' (2025, 1, 10)]\<rparr>)
        ''p1'' ''v1'' (dose_value (DOSE_ORDER ! 0))
   \<and> ensure_dose_order demo_db ''p1'' ''v1'' D1 = Inr ()
   \<and> create_vaccination demo_loads (submission ''v2'' R1 (2025, 3, 10))
        (demo_db \<lparr>vaccinations := [stored ''r0'' ''v2'' ''D1'' (2025, 1, 10),
                                     stored ''r1'' ''v2'' ''D2'' (2025, 2, 10)]\<rparr>)
        True ''r2'' 0
     = (Inl (SequenceViolation R1 D3),
        demo_db \<lparr>vaccinations := [stored ''r0'' ''v2'' ''D1'' (2025, 1, 10),
                                     stored ''r1'' ''v2'' ''D2'' (2025, 2, 10)]\<rparr>)"
proof -
  let ?dbA = "demo_db \<lparr>vaccinations := [stored ''r0'' ''v1'' ''D1'' (2025, 1, 10)]\<rparr>"
  let ?dbB = "demo_db \<lparr>vaccinations := [stored ''r0'' ''v2'' ''D1'' (2025, 1, 10),
                                     stored ''r1'' ''v2'' ''D2'' (2025, 2, 10)]\<rparr>"
  let ?a = "submission ''v1'' D2 (2025, 2, 10)"
  let ?b = "submission ''v2'' R1 (2025, 3, 10)"
  let ?out = "\<lparr> out_id = ''r1'', out_person_id = ''p1'', out_vaccine_id = ''v1'',
      out_dose = D2, out_applied_at = (2025, 2, 10), out_lot = None, out_location = None,
      out_created_at = 0 \<rparr>"
  have pA: "get_Person ?dbA (in_person_id ?a) = Some ana"
    and vA: "get_Vaccine ?dbA (in_vaccine_id ?a) = Some hepb"
    and pB: "get_Person ?dbB (in_person_id ?b) = Some ana"
    and vB: "get_Vaccine ?dbB (in_vaccine_id ?b) = Some bcg"
    by (simp_all add: submission_sel demo_get)
  have aA: "dose_value (in_dose ?a) \<in> set (allowed_list demo_loads hepb)"
    by (simp add: submission_sel demo_allowed)
  have oA: "ensure_dose_order ?dbA (in_person_id ?a) (in_vaccine_id ?a) (in_dose ?a) = Inr ()"
    by (simp add: ensure_dose_order_def submission_sel ORDER_INDEX_simps DOSE_ORDER_def stored_def)
  have nA: "\<not> on_file ?dbA (in_person_id ?a) (in_vaccine_id ?a) (dose_value (in_dose ?a))"
    by (simp add: submission_sel stored_def)
  have acc: "fst (create_vaccination demo_loads ?a ?dbA True ''r1'' 0) = Inr ?out"
    using cv_accept[OF pA vA aA _ nA, of True "''r1''" 0] oA
    by (simp add: submission_def)
  have 1: "on_file ?dbA ''p1'' ''v1'' (dose_value (DOSE_ORDER ! 0))"
    using sequence_prerequisites[where loads = demo_loads and payload = ?a and db = ?dbA
        and nid = "''r1''" and now = 0 and out = ?out and k = 1] acc
      ORDER_INDEX_submission(2)[of "''v1''" "(2025, 2, 10)"]
    by (simp add: submission_sel)
  have 2: "ensure_dose_order demo_db ''p1'' ''v1'' D1 = Inr ()"
    using sequence_prerequisites[where db = demo_db and d = D1 and pid = "''p1''"
        and vid = "''v1''"]
    by (simp add: ORDER_INDEX_simps)
  have alB: "set (allowed_list demo_loads bcg) = {''D1'', ''D2'', ''R1''}"
    by (simp add: demo_allowed)
  have h1: "on_file ?dbB (in_person_id ?b) (in_vaccine_id ?b) ''D1''"
    and h2: "on_file ?dbB (in_person_id ?b) (in_vaccine_id ?b) ''D2''"
    and h3: "\<not> on_file ?dbB (in_person_id ?b) (in_vaccine_id ?b) ''D3''"
    by (simp_all add: submission_sel stored_def)
  have dB: "in_dose ?b = R1" by (simp add: submission_sel)
  have 3: "create_vaccination demo_loads ?b ?dbB True ''r2'' 0
             = (Inl (SequenceViolation R1 D3), ?dbB)"
    using sequence_prerequisites[where loads = demo_loads and payload = ?b and db = ?dbB
        and nid = "''r2''" and now = 0 and p = ana and v = bcg] pB vB alB dB h1 h2 h3
    by blast
  show ?thesis using acc 1 2 3 by blast
qed

text \<open>
  Claim C8. Whatever the call returns: when it raises, the database after the call is the
  database before it, and the exception is one of the typed rejections (NotFound for the
  person or the vaccine, DoseNotAllowed, SequenceViolation, DuplicateDose), never the
  KeyError or ValueError the code could raise in principle; when it succeeds, exactly the
  row built from the payload has been appended, and the person and vaccine exist, the
  dose is allowed, the sequence check passed (if enforced) and the dose was not on file.
  So the database changes only on the accept path.
\<close>

theorem rejections_leave_store_unchanged:
  assumes "create_vaccination loads payload db enf nid now = (r, db')"
  shows "(\<forall>e. r = Inl e \<longrightarrow>
            db' = db
            \<and> (e = NotFound PersonEntity \<or> e = NotFound VaccineEntity
               \<or> (\<exists>n. e = DoseNotAllowed (in_dose payload) n)
               \<or> (\<exists>m. e = SequenceViolation (in_dose payload) m)
               \<or> e = DuplicateDose))
    \<and> (\<forall>out. r = Inr out \<longrightarrow>
            db' = db \<lparr> vaccinations := vaccinations db @
                   [\<lparr> rec_id = nid, person_id = in_person_id payload,
                      vaccine_id = in_vaccine_id payload,
                      dose = dose_value (in_dose payload),
                      applied_at = in_applied_at payload, lot = in_lot payload,
                      location = in_location payload, created_at = now \<rparr>] \<rparr>
            \<and> (\<exists>p. get_Person db (in_person_id payload) = Some p)
            \<and> (\<exists>v. get_Vaccine db (in_vaccine_id payload) = Some v
                  \<and> dose_value (in_dose payload) \<in> set (allowed_list loads v))
            \<and> (enf \<longrightarrow> ensure_dose_order db (in_person_id payload) (in_vaccine_id payload)
                          (in_dose payload) = Inr ())
            \<and> \<not> on_file db (in_person_id payload) (in_vaccine_id payload)
                   (dose_value (in_dose payload)))
    \<and> (db' \<noteq> db \<longrightarrow> (\<exists>out. r = Inr out))"
proof -
  from cv_outcomes[of loads payload db enf nid now]
  show ?thesis
  proof
    assume "\<exists>e. create_vaccination loads payload db enf nid now = (Inl e, db)
        \<and> (e = NotFound PersonEntity \<or> e = NotFound VaccineEntity
           \<or> (\<exists>n. e = DoseNotAllowed (in_dose payload) n)
           \<or> (\<exists>m. e = SequenceViolation (in_dose payload) m)
           \<or> e = DuplicateDose)"
    then obtain e where e: "create_vaccination loads payload db enf nid now = (Inl e, db)"
      and k: "e = NotFound PersonEntity \<or> e = NotFound VaccineEntity
           \<or> (\<exists>n. e = DoseNotAllowed (in_dose payload) n)
           \<or> (\<exists>m. e = SequenceViolation (in_dose payload) m)
           \<or> e = DuplicateDose" by blast
    from e assms have "r = Inl e" "db' = db" by simp_all
    then show ?thesis using k by simp
  next
    assume "\<exists>p v. get_Person db (in_person_id payload) = Some p
        \<and> get_Vaccine db (in_vaccine_id payload) = Some v
        \<and> dose_value (in_dose payload) \<in> set (allowed_list loads v)
        \<and> (enf \<longrightarrow> ensure_dose_order db (in_person_id payload) (in_vaccine_id payload)
                      (in_dose payload) = Inr ())
        \<and> \<not> on_file db (in_person_id payload) (in_vaccine_id payload)
               (dose_value (in_dose payload))
        \<and> create_vaccination loads payload db enf nid now =
            (Inr \<lparr> out_id = nid, out_person_id = in_person_id payload,
                   out_vaccine_id = in_vaccine_id payload, out_dose = in_dose payload,
                   out_applied_at = in_applied_at payload, out_lot = in_lot payload,
                   out_location = in_location payload, out_created_at = now \<rparr>,
             db \<lparr> vaccinations := vaccinations db @
                   [\<lparr> rec_id = nid, person_id = in_person_id payload,
                      vaccine_id = in_vaccine_id payload,
                      dose = dose_value (in_dose payload),
                      applied_at = in_applied_at payload, lot = in_lot payload,
                      location = in_location payload, created_at = now \<rparr>] \<rparr>)"
    then obtain p v where p: "get_Person db (in_person_id payload) = Some p"
      and v: "get_Vaccine db (in_vaccine_id payload) = Some v"
      and al: "dose_value (in_dose payload) \<in> set (allowed_list loads v)"
      and ok: "enf \<longrightarrow> ensure_dose_order db (in_person_id payload) (in_vaccine_id payload)
                      (in_dose payload) = Inr ()"
      and nd: "\<not> on_file db (in_person_id payload) (in_vaccine_id payload)
               (dose_value (in_dose payload))"
      and c: "create_vaccination loads payload db enf nid now =
            (Inr \<lparr> out_id = nid, out_person_id = in_person_id payload,
                   out_vaccine_id = in_vaccine_id payload, out_dose = in_dose payload,
                   out_applied_at = in_applied_at payload, out_lot = in_lot payload,
                   out_location = in_location payload, out_created_at = now \<rparr>,
             db \<lparr> vaccinations := vaccinations db @
                   [\<lparr> rec_id = nid, person_id = in_person_id payload,
                      vaccine_id = in_vaccine_id payload,
                      dose = dose_value (in_dose payload),
                      applied_at = in_applied_at payload, lot = in_lot payload,
                      location = in_location payload, created_at = now \<rparr>] \<rparr>)"
      by blast
    from c assms have r: "\<exists>out. r = Inr out" and d: "db' = db \<lparr> vaccinations := vaccinations db @
                   [\<lparr> rec_id = nid, person_id = in_person_id payload,
                      vaccine_id = in_vaccine_id payload,
                      dose = dose_value (in_dose payload),
                      applied_at = in_applied_at payload, lot = in_lot payload,
                      location = in_location payload, created_at = now \<rparr>] \<rparr>"
      by auto
    show ?thesis using r d p v al ok nd by auto
  qed
qed

theorem rejections_leave_store_unchanged_witness:
  "snd (create_vaccination demo_loads (submission ''v1'' D2 (2025, 2, 10)) demo_db True ''r1'' 0)
     = demo_db
   \<and> snd (create_vaccination demo_loads (submission ''v1'' R2 (2025, 1, 11)) demo_db False
        ''r2'' 8) = demo_db
   \<and> snd (create_vaccination demo_loads (submission ''v1'' D1 (2025, 1, 11))
        (demo_db \<lparr>vaccinations := [stored ''r1'' ''v1'' ''D1'' (2025, 1, 10)]\<rparr>) True ''r2'' 8)
     = demo_db \<lparr>vaccinations := [stored ''r1'' ''v1'' ''D1'' (2025, 1, 10)]\<rparr>
   \<and> snd (create_vaccination demo_loads
        (submission ''v1'' D1 (2025, 1, 11) \<lparr>in_person_id := ''p9''\<rparr>) demo_db True ''r2'' 8)
     = demo_db
   \<and> (\<exists>out. fst (create_vaccination demo_loads (submission ''v1'' D1 (2025, 1, 10))
        demo_db True ''r1'' 7) = Inr out)
   \<and> \<not> on_file demo_db ''p1'' ''v1'' ''D1''"
proof -
  let ?s = "create_vaccination demo_loads (submission ''v1'' D2 (2025, 2, 10)) demo_db True
              ''r1'' 0"
  let ?n = "create_vaccination demo_loads (submission ''v1'' R2 (2025, 1, 11)) demo_db False
              ''r2'' 8"
  let ?d = "create_vaccination demo_loads (submission ''v1'' D1 (2025, 1, 11))
        (demo_db \<lparr>vaccinations := [stored ''r1'' ''v1'' ''D1'' (2025, 1, 10)]\<rparr>) True ''r2'' 8"
  let ?p = "create_vaccination demo_loads
        (submission ''v1'' D1 (2025, 1, 11) \<lparr>in_person_id := ''p9''\<rparr>) demo_db True ''r2'' 8"
  let ?a = "create_vaccination demo_loads (submission ''v1'' D1 (2025, 1, 10)) demo_db True
              ''r1'' 7"
  have fs: "fst ?s = Inl (SequenceViolation D2 D1)" using demo_run_seq by simp
  have fn: "fst ?n = Inl (DoseNotAllowed R2 ''Hepatite B'')" using demo_run_not_allowed by simp
  have fd: "fst ?d = Inl DuplicateDose" using demo_run_dup by simp
  have fp: "fst ?p = Inl (NotFound PersonEntity)" using demo_run_no_person by simp
  have fa: "\<exists>out. fst ?a = Inr out" using demo_run_accept by simp
  have 1: "snd ?s = demo_db"
    using rejections_leave_store_unchanged[OF prod.collapse[symmetric, of "?s"]] fs by blast
  have 2: "snd ?n = demo_db"
    using rejections_leave_store_unchanged[OF prod.collapse[symmetric, of "?n"]] fn by blast
  have 3: "snd ?d = demo_db \<lparr>vaccinations := [stored ''r1'' ''v1'' ''D1'' (2025, 1, 10)]\<rparr>"
    using rejections_leave_store_unchanged[OF prod.collapse[symmetric, of "?d"]] fd by blast
  have 4: "snd ?p = demo_db"
    using rejections_leave_store_unchanged[OF prod.collapse[symmetric, of "?p"]] fp by blast
  from fa obtain out where out: "fst ?a = Inr out" ..
  have "\<not> on_file demo_db (in_person_id (submission ''v1'' D1 (2025, 1, 10)))
          (in_vaccine_id (submission ''v1'' D1 (2025, 1, 10)))
          (dose_value (in_dose (submission ''v1'' D1 (2025, 1, 10))))"
    using rejections_leave_store_unchanged[OF prod.collapse[symmetric, of "?a"]] out by blast
  then have 5: "\<not> on_file demo_db ''p1'' ''v1'' ''D1''"
    by (simp add: submission_sel)
  show ?thesis using 1 2 3 4 fa 5 by blast
qed

text \<open>
  Claim C7. When the stored allowed-dose text of a vaccine does not decode,
  \<^verbatim>\<open>allowed_list\<close> returns the values of the full global order D1, D2, D3, R1, R2, the
  allowed-dose check passes for every dose, and a submission for that vaccine behaves as
  it does under a decoder that reads the full order: no failure of the decoder reaches
  the caller, and the call never gives DoseNotAllowed. The card views do not read the
  allowed-dose text at all: they are the same whatever it holds.
\<close>

theorem unreadable_allowed_set_falls_back:
  assumes "loads (allowed_doses v) = None"
  shows "allowed_list loads v = map dose_value DOSE_ORDER
    \<and> allowed_list loads v = [''D1'', ''D2'', ''D3'', ''R1'', ''R2'']
    \<and> (\<forall>d. ensure_dose_allowed loads v d = Inr ())
    \<and> (get_Vaccine db (in_vaccine_id payload) = Some v \<longrightarrow>
          create_vaccination loads payload db enf nid now
            = create_vaccination (\<lambda>s. Some (map dose_value DOSE_ORDER)) payload db enf nid now
          \<and> (\<forall>d n. fst (create_vaccination loads payload db enf nid now)
                      \<noteq> Inl (DoseNotAllowed d n)))
    \<and> get_card (db \<lparr>vaccines := map (\<lambda>w. w \<lparr>allowed_doses := txt w\<rparr>) (vaccines db)\<rparr>)
          pid fmt = get_card db pid fmt"
proof -
  have 1: "allowed_list loads v = map dose_value DOSE_ORDER"
    using assms by (simp add: allowed_list_def)
  have 2: "allowed_list loads v = [''D1'', ''D2'', ''D3'', ''R1'', ''R2'']"
    using 1 by (simp add: DOSE_ORDER_def)
  have 3: "\<forall>d. ensure_dose_allowed loads v d = Inr ()"
    using ensure_dose_allowed_unreadable[where loads = loads and v = v] assms by blast
  have 4: "create_vaccination loads payload db enf nid now
            = create_vaccination (\<lambda>s. Some (map dose_value DOSE_ORDER)) payload db enf nid now
          \<and> (\<forall>d n. fst (create_vaccination loads payload db enf nid now)
                      \<noteq> Inl (DoseNotAllowed d n))"
    if v: "get_Vaccine db (in_vaccine_id payload) = Some v"
  proof
    show "create_vaccination loads payload db enf nid now
            = create_vaccination (\<lambda>s. Some (map dose_value DOSE_ORDER)) payload db enf nid now"
      using v 3 by (simp add: create_vaccination_def ensure_dose_allowed_default
          split: option.splits)
    have al: "dose_value (in_dose payload) \<in> set (allowed_list loads v)"
      unfolding 1 by (cases "in_dose payload") (simp_all add: DOSE_ORDER_def)
    show "\<forall>d n. fst (create_vaccination loads payload db enf nid now)
                      \<noteq> Inl (DoseNotAllowed d n)"
    proof (cases "get_Person db (in_person_id payload)")
      case None
      then show ?thesis using cv_no_person[OF None, of loads enf nid now] by simp
    next
      case (Some p)
      then show ?thesis using cv_allowed_outcomes[OF Some v al, of enf nid now] by auto
    qed
  qed
  have 5: "get_card (db \<lparr>vaccines := map (\<lambda>w. w \<lparr>allowed_doses := txt w\<rparr>) (vaccines db)\<rparr>)
          pid fmt = get_card db pid fmt"
    by (rule get_card_ignores_allowed_doses)
  show ?thesis using 1 2 3 4 5 by blast
qed

theorem unreadable_allowed_set_falls_back_witness:
  "allowed_list demo_loads corrupt = [''D1'', ''D2'', ''D3'', ''R1'', ''R2'']
   \<and> ensure_dose_allowed demo_loads corrupt R2 = Inr ()
   \<and> create_vaccination demo_loads (submission ''v4'' D1 (2025, 1, 10)) demo_db True ''r1'' 0
     = create_vaccination (\<lambda>s. Some (map dose_value DOSE_ORDER))
         (submission ''v4'' D1 (2025, 1, 10)) demo_db True ''r1'' 0"
proof -
  have u: "demo_loads (allowed_doses corrupt) = None"
    by (simp add: demo_loads_def corrupt_def)
  have v: "get_Vaccine demo_db (in_vaccine_id (submission ''v4'' D1 (2025, 1, 10)))
             = Some corrupt"
    by (simp add: submission_sel demo_get0)
  show ?thesis
    using unreadable_allowed_set_falls_back[where loads = demo_loads and v = corrupt
        and db = demo_db and payload = "submission ''v4'' D1 (2025, 1, 10)"
        and enf = True and nid = "''r1''" and now = 0] u v
    by blast
qed

text \<open>
  Claim C3, as stated, says that a candidate whose triple is already on file is rejected
  with DuplicateDose. The uniqueness query is the last of the checks, so an earlier one
  can answer first: D2 is accepted for an empty history with the sequence not enforced;
  the same D2 submitted again with the sequence enforced is a duplicate, and the call
  raises SequenceViolation (D2 requires D1), not DuplicateDose.
\<close>

theorem duplicate_rejected_by_earlier_check:
  "create_vaccination demo_loads (submission ''v1'' D2 (2025, 2, 10)) demo_db False ''r1'' 0
     = (Inr \<lparr> out_id = ''r1'', out_person_id = ''p1'', out_vaccine_id = ''v1'', out_dose = D2,
              out_applied_at = (2025, 2, 10), out_lot = None, out_location = None,
              out_created_at = 0 \<rparr>,
        demo_db \<lparr>vaccinations := [stored ''r1'' ''v1'' ''D2'' (2025, 2, 10)]\<rparr>)
   \<and> on_file (demo_db \<lparr>vaccinations := [stored ''r1'' ''v1'' ''D2'' (2025, 2, 10)]\<rparr>)
        (in_person_id (submission ''v1'' D2 (2025, 2, 11)))
        (in_vaccine_id (submission ''v1'' D2 (2025, 2, 11)))
        (dose_value (in_dose (submission ''v1'' D2 (2025, 2, 11))))
   \<and> create_vaccination demo_loads (submission ''v1'' D2 (2025, 2, 11))
        (demo_db \<lparr>vaccinations := [stored ''r1'' ''v1'' ''D2'' (2025, 2, 10)]\<rparr>) True ''r2'' 1
     = (Inl (SequenceViolation D2 D1),
        demo_db \<lparr>vaccinations := [stored ''r1'' ''v1'' ''D2'' (2025, 2, 10)]\<rparr>)
   \<and> fst (create_vaccination demo_loads (submission ''v1'' D2 (2025, 2, 11))
        (demo_db \<lparr>vaccinations := [stored ''r1'' ''v1'' ''D2'' (2025, 2, 10)]\<rparr>) True ''r2'' 1)
     \<noteq> Inl DuplicateDose"
  by (simp add: cv_eval)

text \<open>
  Claim C3, amended. No two stored records share a (person, vaccine, dose) triple: a
  call of \<^verbatim>\<open>create_vaccination\<close> keeps the triples of the stored records distinct,
  and so does every sequence of calls. A candidate whose triple is already on file is
  always rejected and leaves the database unchanged; the rejection is DuplicateDose when
  the person and the vaccine exist, the dose is allowed and the sequence check passes or
  is not enforced (otherwise it is the error of the earlier check that fails).
\<close>

theorem uniqueness_preserved:
  "(distinct (map triple (vaccinations db)) \<longrightarrow>
      distinct (map triple
        (vaccinations (snd (create_vaccination loads payload db enf nid now)))))
   \<and> (distinct (map triple (vaccinations db)) \<longrightarrow>
      distinct (map triple (vaccinations (submit_all loads reqs db))))
   \<and> (on_file db (in_person_id payload) (in_vaccine_id payload)
         (dose_value (in_dose payload)) \<longrightarrow>
      (\<exists>e. create_vaccination loads payload db enf nid now = (Inl e, db)))
   \<and> (on_file db (in_person_id payload) (in_vaccine_id payload)
         (dose_value (in_dose payload)) \<longrightarrow>
      get_Person db (in_person_id payload) = Some p \<longrightarrow>
      get_Vaccine db (in_vaccine_id payload) = Some v \<longrightarrow>
      dose_value (in_dose payload) \<in> set (allowed_list loads v) \<longrightarrow>
      (enf \<longrightarrow> ensure_dose_order db (in_person_id payload) (in_vaccine_id payload)
                    (in_dose payload) = Inr ()) \<longrightarrow>
      create_vaccination loads payload db enf nid now = (Inl DuplicateDose, db))"
  using cv_distinct[of db loads payload enf nid now] submit_all_distinct[of db loads reqs]
    cv_duplicate_rejected[of db payload loads enf nid now]
    cv_dup[of db payload p v loads enf nid now]
  by blast

theorem uniqueness_preserved_witness:
  "distinct (map triple (vaccinations (submit_all demo_loads
      [(submission ''v1'' D1 (2025, 1, 10), True, ''r1'', 0),
       (submission ''v1'' D1 (2025, 1, 11), True, ''r2'', 1),
       (submission ''v1'' D2 (2025, 2, 10), True, ''r3'', 2)] demo_db)))
   \<and> vaccinations (submit_all demo_loads
      [(submission ''v1'' D1 (2025, 1, 10), True, ''r1'', 0),
       (submission ''v1'' D1 (2025, 1, 11), True, ''r2'', 1),
       (submission ''v1'' D2 (2025, 2, 10), True, ''r3'', 2)] demo_db)
     = [stored ''r1'' ''v1'' ''D1'' (2025, 1, 10),
        stored ''r3'' ''v1'' ''D2'' (2025, 2, 10) \<lparr>created_at := 2\<rparr>]
   \<and> create_vaccination demo_loads (submission ''v1'' D1 (2025, 1, 11))
        (demo_db \<lparr>vaccinations := [stored ''r1'' ''v1'' ''D1'' (2025, 1, 10)]\<rparr>) True ''r2'' 1
     = (Inl DuplicateDose,
        demo_db \<lparr>vaccinations := [stored ''r1'' ''v1'' ''D1'' (2025, 1, 10)]\<rparr>)"
proof -
  let ?reqs = "[(submission ''v1'' D1 (2025, 1, 10), True, ''r1'', 0),
       (submission ''v1'' D1 (2025, 1, 11), True, ''r2'', 1),
       (submission ''v1'' D2 (2025, 2, 10), True, ''r3'', 2)]"
  let ?db = "demo_db \<lparr>vaccinations := [stored ''r1'' ''v1'' ''D1'' (2025, 1, 10)]\<rparr>"
  let ?b = "submission ''v1'' D1 (2025, 1, 11)"
  have d0: "distinct (map triple (vaccinations demo_db))" by (simp add: demo_db_def)
  have 1: "distinct (map triple (vaccinations (submit_all demo_loads ?reqs demo_db)))"
    using uniqueness_preserved[where db = demo_db and loads = demo_loads and reqs = ?reqs] d0
    by blast
  have 2: "vaccinations (submit_all demo_loads ?reqs demo_db)
     = [stored ''r1'' ''v1'' ''D1'' (2025, 1, 10),
        stored ''r3'' ''v1'' ''D2'' (2025, 2, 10) \<lparr>created_at := 2\<rparr>]"
    by (simp add: cv_eval)
  have p: "get_Person ?db (in_person_id ?b) = Some ana"
    and v: "get_Vaccine ?db (in_vaccine_id ?b) = Some hepb"
    by (simp_all add: submission_sel demo_get)
  have al: "dose_value (in_dose ?b) \<in> set (allowed_list demo_loads hepb)"
    by (simp add: submission_sel demo_allowed)
  have ok: "ensure_dose_order ?db (in_person_id ?b) (in_vaccine_id ?b) (in_dose ?b) = Inr ()"
    by (simp add: ensure_dose_order_def submission_sel ORDER_INDEX_simps)
  have on: "on_file ?db (in_person_id ?b) (in_vaccine_id ?b) (dose_value (in_dose ?b))"
    by (simp add: submission_sel stored_def)
  have 3: "create_vaccination demo_loads ?b ?db True ''r2'' 1 = (Inl DuplicateDose, ?db)"
    using uniqueness_preserved[where db = ?db and loads = demo_loads and payload = ?b
        and enf = True and nid = "''r2''" and now = 1 and p = ana and v = hepb]
      p v al ok on
    by blast
  show ?thesis using 1 2 3 by blast
qed

section \<open>Claims about the card views\<close>

text \<open>
  Claim C4. For an existing person the matrix view is returned, and it has the five rows
  D1, D2, D3, R1, R2 of the global order, whatever the vaccines allow; one column per
  vaccine of the catalog (the same ids and names, as many columns as vaccines, also
  for vaccines the person has no record of), in ascending order of the name; every row
  as long as the list of columns; and the cell at a row and a column is non-empty exactly
  when the person has a record with that row's dose value and that column's vaccine.
\<close>

theorem matrix_view_shape:
  assumes "get_Person db pid = Some p"
  shows "\<exists>m. get_card db pid FormatMatrix = Inr (CardMatrix m)
     \<and> rows m = [D1, D2, D3, R1, R2]
     \<and> length (grid m) = 5
     \<and> length (cols m) = length (vaccines db)
     \<and> mset (map (\<lambda>c. (mc_vaccine_id c, mc_vaccine_name c)) (cols m))
          = mset (map (\<lambda>v. (vac_id v, vac_name v)) (vaccines db))
     \<and> sorted (map mc_vaccine_name (cols m))
     \<and> (\<forall>i<5. length (grid m ! i) = length (cols m))
     \<and> (\<forall>i<5. \<forall>j<length (cols m).
           (grid m ! i ! j \<noteq> None)
             = on_file db pid (mc_vaccine_id (cols m ! j)) (dose_value (rows m ! i)))"
proof -
  let ?mk = "\<lambda>v. \<lparr> mc_vaccine_id = vac_id v, mc_vaccine_name = vac_name v \<rparr>"
  let ?cs = "map ?mk (sort_key vac_name (vaccines db))"
  let ?rs = "filter (\<lambda>r. person_id r = pid) (vaccinations db)"
  let ?bk = "fold (\<lambda>r m. m((dose r, vaccine_id r) \<mapsto> r)) ?rs Map.empty"
  let ?g = "map (\<lambda>d. map (\<lambda>c. map_option (\<lambda>r. \<lparr> cell_record_id = rec_id r, cell_applied_at = applied_at r, cell_dose = d \<rparr>) (?bk (dose_value d, mc_vaccine_id c))) ?cs)
              DOSE_ORDER"
  let ?m = "\<lparr> rows = DOSE_ORDER, cols = ?cs, grid = ?g \<rparr>"
  have c: "get_card db pid FormatMatrix = Inr (CardMatrix ?m)"
    by (rule get_card_matrix_closed[OF assms])
  have r: "rows ?m = [D1, D2, D3, R1, R2]" by (simp add: DOSE_ORDER_def)
  have lg: "length (grid ?m) = 5" by (simp add: DOSE_ORDER_def)
  have lc: "length (cols ?m) = length (vaccines db)" by simp
  have "mset (map (\<lambda>c. (mc_vaccine_id c, mc_vaccine_name c)) ?cs)
          = mset (map (\<lambda>v. (vac_id v, vac_name v)) (sort_key vac_name (vaccines db)))"
    by (simp add: comp_def)
  also have "\<dots> = image_mset (\<lambda>v. (vac_id v, vac_name v)) (mset (sort_key vac_name (vaccines db)))"
    by simp
  also have "\<dots> = mset (map (\<lambda>v. (vac_id v, vac_name v)) (vaccines db))"
    by simp
  finally have ms: "mset (map (\<lambda>c. (mc_vaccine_id c, mc_vaccine_name c)) (cols ?m))
          = mset (map (\<lambda>v. (vac_id v, vac_name v)) (vaccines db))"
    by simp
  have "map mc_vaccine_name ?cs = map vac_name (sort_key vac_name (vaccines db))"
    by (simp add: comp_def)
  moreover have "sorted (map vac_name (sort_key vac_name (vaccines db)))"
    by (rule sorted_sort_key)
  ultimately have "sorted (map mc_vaccine_name ?cs)" by (simp only:)
  then have so: "sorted (map mc_vaccine_name (cols ?m))"
    by (simp only: CardMatrixOut.select_convs)
  have len: "length DOSE_ORDER = 5" by (simp add: DOSE_ORDER_def)
  have row: "grid ?m ! i = map (\<lambda>c. map_option (\<lambda>r. \<lparr> cell_record_id = rec_id r, cell_applied_at = applied_at r, cell_dose = DOSE_ORDER ! i \<rparr>)
                 (?bk (dose_value (DOSE_ORDER ! i), mc_vaccine_id c))) ?cs" if "i < 5" for i
    using that by (simp add: len)
  have ll: "\<forall>i<5. length (grid ?m ! i) = length (cols ?m)"
    using row by simp
  have cell: "(grid ?m ! i ! j \<noteq> None)
             = on_file db pid (mc_vaccine_id (cols ?m ! j)) (dose_value (rows ?m ! i))"
    if i: "i < 5" and j: "j < length (cols ?m)" for i j
  proof -
    have j': "j < length ?cs" using j by simp
    have "grid ?m ! i ! j = map_option (\<lambda>r. \<lparr> cell_record_id = rec_id r, cell_applied_at = applied_at r, cell_dose = DOSE_ORDER ! i \<rparr>)
            (?bk (dose_value (DOSE_ORDER ! i), mc_vaccine_id (?cs ! j)))"
      unfolding row[OF i] using nth_map[OF j'] by simp
    then have "(grid ?m ! i ! j \<noteq> None)
        = (?bk (dose_value (DOSE_ORDER ! i), mc_vaccine_id (?cs ! j)) \<noteq> None)"
      by simp
    also have "\<dots> = (\<exists>x\<in>set ?rs. (dose x, vaccine_id x)
                         = (dose_value (DOSE_ORDER ! i), mc_vaccine_id (?cs ! j)))"
      unfolding by_key_fold_dom by simp
    also have "\<dots> = on_file db pid (mc_vaccine_id (?cs ! j)) (dose_value (DOSE_ORDER ! i))"
      by auto
    finally show ?thesis by simp
  qed
  show ?thesis
    apply (rule exI[of _ ?m])
    using c r lg lc ms so ll cell by blast
qed

theorem matrix_view_shape_witness:
  "(\<exists>m. get_card (demo_db \<lparr>vaccinations := [stored ''r1'' ''v1'' ''D1'' (2025, 1, 10),
                                            stored ''r2'' ''v1'' ''D2'' (2025, 2, 10)]\<rparr>)
           ''p1'' FormatMatrix = Inr (CardMatrix m)
        \<and> rows m = [D1, D2, D3, R1, R2] \<and> length (grid m) = 5 \<and> length (cols m) = 4
        \<and> map mc_vaccine_name (cols m) = [''BCG'', ''Hepatite B'', ''MENINGO C'', ''ROTAVIRUS'']
        \<and> sorted (map mc_vaccine_name (cols m))
        \<and> grid m ! 0 ! 1 \<noteq> None \<and> grid m ! 2 ! 1 = None)"
proof -
  let ?db = "demo_db \<lparr>vaccinations := [stored ''r1'' ''v1'' ''D1'' (2025, 1, 10),
                                       stored ''r2'' ''v1'' ''D2'' (2025, 2, 10)]\<rparr>"
  have p: "get_Person ?db ''p1'' = Some ana" by (rule demo_get)
  from matrix_view_shape[OF p] obtain m where
    c: "get_card ?db ''p1'' FormatMatrix = Inr (CardMatrix m)"
    and r: "rows m = [D1, D2, D3, R1, R2]"
    and lg: "length (grid m) = 5"
    and lc: "length (cols m) = length (vaccines ?db)"
    and so: "sorted (map mc_vaccine_name (cols m))"
    by (elim exE conjE) (rule that)
  have lc4: "length (cols m) = 4" using lc by (simp add: demo_db_def)
  from c have "Inr (CardMatrix m) = get_card ?db ''p1'' FormatMatrix" by (rule sym)
  then have m: "m = \<lparr> rows = [D1, D2, D3, R1, R2],
        cols = [\<lparr> mc_vaccine_id = ''v2'', mc_vaccine_name = ''BCG'' \<rparr>,
                \<lparr> mc_vaccine_id = ''v1'', mc_vaccine_name = ''Hepatite B'' \<rparr>,
                \<lparr> mc_vaccine_id = ''v4'', mc_vaccine_name = ''MENINGO C'' \<rparr>,
                \<lparr> mc_vaccine_id = ''v3'', mc_vaccine_name = ''ROTAVIRUS'' \<rparr>],
        grid = [[None, Some \<lparr> cell_record_id = ''r1'', cell_applied_at = (2025, 1, 10),
                               cell_dose = D1 \<rparr>, None, None],
                [None, Some \<lparr> cell_record_id = ''r2'', cell_applied_at = (2025, 2, 10),
                               cell_dose = D2 \<rparr>, None, None],
                [None, None, None, None],
                [None, None, None, None],
                [None, None, None, None]] \<rparr>"
    unfolding matrix_demo by (simp only: sum.inject card.inject)
  have n: "map mc_vaccine_name (cols m) = [''BCG'', ''Hepatite B'', ''MENINGO C'', ''ROTAVIRUS'']"
    and g1: "grid m ! 0 ! 1 \<noteq> None" and g2: "grid m ! 2 ! 1 = None"
    unfolding m by simp_all
  show ?thesis
    by (rule exI[of _ m]) (intro conjI c r lg lc4 n so g1 g2)
qed

text \<open>
  Claim C5. For an existing person whose stored sex and dose values are enum values (as
  every row written through the API has them), the list view is returned, and: its blocks
  carry distinct vaccine ids, exactly the ids of the vaccines the person has a record
  of, so there is one block per such vaccine and none for a vaccine without a record;
  every block is non-empty, its entries are in ascending order of the applied date, and
  they are the person's records of that vaccine; and the entries of all blocks together
  are exactly the person's records, each once (as multisets of record id, dose, date,
  lot and location).
\<close>

theorem list_view_blocks:
  assumes "get_Person db pid = Some p"
    and "sex p = gender_value g"
    and "\<forall>r\<in>set (vaccinations db). person_id r = pid \<longrightarrow> (\<exists>d. dose r = dose_value d)"
  shows "\<exists>l. get_card db pid FormatList = Inr (CardList l)
     \<and> distinct (map cb_vaccine_id (cl_vaccines l))
     \<and> set (map cb_vaccine_id (cl_vaccines l))
          = vaccine_id ` {r \<in> set (vaccinations db). person_id r = pid}
     \<and> (\<forall>b\<in>set (cl_vaccines l).
           entries b \<noteq> []
           \<and> sorted (map ce_applied_at (entries b))
           \<and> mset (map (\<lambda>e. (record_id e, dose_value (ce_dose e), ce_applied_at e, ce_lot e,
                              ce_location e)) (entries b))
             = mset (map (\<lambda>r. (rec_id r, dose r, applied_at r, lot r, location r))
                 (filter (\<lambda>r. person_id r = pid \<and> vaccine_id r = cb_vaccine_id b)
                    (vaccinations db))))
     \<and> mset (map (\<lambda>e. (record_id e, dose_value (ce_dose e), ce_applied_at e, ce_lot e,
                        ce_location e)) (concat (map entries (cl_vaccines l))))
         = mset (map (\<lambda>r. (rec_id r, dose r, applied_at r, lot r, location r))
             (filter (\<lambda>r. person_id r = pid) (vaccinations db)))"
proof -
  let ?ek = "\<lambda>e. (record_id e, dose_value (ce_dose e), ce_applied_at e, ce_lot e, ce_location e)"
  let ?rk = "\<lambda>r. (rec_id r, dose r, applied_at r, lot r, location r)"
  let ?ps = "filter (\<lambda>r. person_id r = pid) (vaccinations db)"
  let ?xs = "sort_key applied_at ?ps"
  let ?G = "fold (\<lambda>r b. setdefault_append b (vaccine_id r) r) ?xs []"
  let ?vm = "fold (\<lambda>v m. m(vac_id v \<mapsto> v)) (vaccines db) Map.empty"
  have sx: "set ?xs = {r \<in> set (vaccinations db). person_id r = pid}" by auto
  have ent: "k \<in> vaccine_id ` set ?xs \<and> rs = filter (\<lambda>r. vaccine_id r = k) ?xs"
    if "(k, rs) \<in> set ?G" for k rs
    using that by (rule bucket_entry)
  have valid: "\<forall>kv\<in>set ?G. \<forall>r\<in>set (snd kv). \<exists>d. dose r = dose_value d"
  proof (intro ballI)
    fix kv r assume kv: "kv \<in> set ?G" and r: "r \<in> set (snd kv)"
    from kv have "(fst kv, snd kv) \<in> set ?G" by simp
    from ent[OF this] have "snd kv = filter (\<lambda>r. vaccine_id r = fst kv) ?xs" by simp
    then have "r \<in> set ?xs" using r by auto
    then have "r \<in> set (vaccinations db) \<and> person_id r = pid" unfolding sx by simp
    then show "\<exists>d. dose r = dose_value d" using assms(3) by blast
  qed
  from card_blocks_ok[OF valid, of ?vm] obtain bs where
    cb: "card_blocks ?vm ?G = Inr bs"
    and ids: "map cb_vaccine_id bs = map fst ?G"
    and ents: "map (\<lambda>x. map ?ek (entries x)) bs = map (\<lambda>kv. map ?rk (snd kv)) ?G"
    and rel: "list_all2 (\<lambda>x kv. cb_vaccine_id x = fst kv
                 \<and> map ?ek (entries x) = map ?rk (snd kv)) bs ?G"
    by blast
  let ?l = "\<lparr> cl_person = \<lparr> po_id = per_id p, po_name = per_name p, po_document = document p,
                              po_sex = g, po_age = age p \<rparr>,
               cl_vaccines = bs \<rparr>"
  have c: "get_card db pid FormatList = Inr (CardList ?l)"
    unfolding get_card_def Let_def
    by (simp only: assms(1) option.case card_format.case cb sum.case
        person_out_ok[OF assms(2)])
  have d: "distinct (map cb_vaccine_id bs)"
    unfolding ids using bucket_keys[of ?xs] by blast
  have "set (map cb_vaccine_id bs) = fst ` set ?G" unfolding ids by simp
  also have "\<dots> = vaccine_id ` set ?xs" using bucket_keys[of ?xs] by blast
  finally have s: "set (map cb_vaccine_id bs)
      = vaccine_id ` {r \<in> set (vaccinations db). person_id r = pid}"
    unfolding sx .
  have so: "sorted (map applied_at ?xs)" by (rule sorted_sort_key)
  have blk: "entries b \<noteq> [] \<and> sorted (map ce_applied_at (entries b))
       \<and> mset (map ?ek (entries b))
           = mset (map ?rk (filter (\<lambda>r. person_id r = pid \<and> vaccine_id r = cb_vaccine_id b)
                (vaccinations db)))"
    if b: "b \<in> set bs" for b
  proof -
    from b obtain i where i: "i < length bs" "bs ! i = b" by (auto simp: in_set_conv_nth)
    have len: "length bs = length ?G" using rel by (rule list_all2_lengthD)
    from list_all2_nthD[OF rel i(1)] i(2)
    have r1: "cb_vaccine_id b = fst (?G ! i)" and r2: "map ?ek (entries b) = map ?rk (snd (?G ! i))"
      by simp_all
    have "?G ! i \<in> set ?G" using i(1) len by simp
    then have "(fst (?G ! i), snd (?G ! i)) \<in> set ?G" by simp
    from ent[OF this] r1 have k: "cb_vaccine_id b \<in> vaccine_id ` set ?xs"
      and f: "snd (?G ! i) = filter (\<lambda>r. vaccine_id r = cb_vaccine_id b) ?xs"
      by simp_all
    let ?f = "filter (\<lambda>r. vaccine_id r = cb_vaccine_id b) ?xs"
    have e: "map ?ek (entries b) = map ?rk ?f" using r2 f by simp
    from k have "?f \<noteq> []" unfolding filter_empty_conv by auto
    then have "map ?rk ?f \<noteq> []" by simp
    then have ne: "entries b \<noteq> []" using e by auto
    have "map (\<lambda>t. fst (snd (snd t))) (map ?ek (entries b))
            = map (\<lambda>t. fst (snd (snd t))) (map ?rk ?f)"
      using e by (rule arg_cong)
    then have "map ce_applied_at (entries b) = map applied_at ?f"
      by (simp add: comp_def)
    moreover have "sorted (map applied_at ?f)" using so by (rule sorted_filter)
    ultimately have st: "sorted (map ce_applied_at (entries b))" by (simp only:)
    have "mset ?f = filter_mset (\<lambda>r. vaccine_id r = cb_vaccine_id b) (mset ?xs)" by simp
    also have "\<dots> = filter_mset (\<lambda>r. vaccine_id r = cb_vaccine_id b) (mset ?ps)" by simp
    also have "\<dots> = mset (filter (\<lambda>r. person_id r = pid \<and> vaccine_id r = cb_vaccine_id b)
                          (vaccinations db))"
      by (simp add: filter_filter_mset conj_commute)
    finally have "mset (map ?rk ?f)
        = mset (map ?rk (filter (\<lambda>r. person_id r = pid \<and> vaccine_id r = cb_vaccine_id b)
                          (vaccinations db)))"
      by (metis mset_map)
    then have ms: "mset (map ?ek (entries b))
           = mset (map ?rk (filter (\<lambda>r. person_id r = pid \<and> vaccine_id r = cb_vaccine_id b)
                (vaccinations db)))"
      using e by (simp only:)
    show ?thesis using ne st ms by (intro conjI)
  qed
  have "map ?ek (concat (map entries bs)) = concat (map (\<lambda>x. map ?ek (entries x)) bs)"
    by (simp add: map_concat comp_def)
  also have "\<dots> = concat (map (\<lambda>kv. map ?rk (snd kv)) ?G)" unfolding ents ..
  also have "\<dots> = map ?rk (concat (map snd ?G))" by (simp add: map_concat comp_def)
  finally have "mset (map ?ek (concat (map entries bs)))
      = image_mset ?rk (mset (concat (map snd ?G)))" by simp
  also have "\<dots> = image_mset ?rk (mset ?xs)" unfolding bucket_mset ..
  also have "\<dots> = mset (map ?rk ?ps)" by simp
  finally have un: "mset (map ?ek (concat (map entries bs))) = mset (map ?rk ?ps)" .
  have sel: "cl_vaccines ?l = bs" by simp
  have bl: "\<forall>b\<in>set bs.
           entries b \<noteq> []
           \<and> sorted (map ce_applied_at (entries b))
           \<and> mset (map ?ek (entries b))
             = mset (map ?rk (filter (\<lambda>r. person_id r = pid \<and> vaccine_id r = cb_vaccine_id b)
                    (vaccinations db)))"
    using blk by blast
  show ?thesis
    by (rule exI[of _ ?l], unfold sel) (intro conjI c d s bl un)
qed

theorem list_view_blocks_witness:
  "(\<exists>l. get_card (demo_db \<lparr>vaccinations := [stored ''r1'' ''v1'' ''D2'' (2025, 2, 10),
                                       stored ''r2'' ''v2'' ''D1'' (2025, 1, 5),
                                       stored ''r3'' ''v1'' ''D1'' (2025, 1, 10)]\<rparr>)
           ''p1'' FormatList = Inr (CardList l)
        \<and> distinct (map cb_vaccine_id (cl_vaccines l))
        \<and> map cb_vaccine_id (cl_vaccines l) = [''v2'', ''v1'']
        \<and> map (\<lambda>b. map record_id (entries b)) (cl_vaccines l) = [[''r2''], [''r3'', ''r1'']])"
proof -
  let ?db = "demo_db \<lparr>vaccinations := [stored ''r1'' ''v1'' ''D2'' (2025, 2, 10),
                                       stored ''r2'' ''v2'' ''D1'' (2025, 1, 5),
                                       stored ''r3'' ''v1'' ''D1'' (2025, 1, 10)]\<rparr>"
  have p: "get_Person ?db ''p1'' = Some ana" by (rule demo_get)
  have g: "sex ana = gender_value G_F" by (simp add: ana_def)
  have v: "\<forall>r\<in>set (vaccinations ?db). person_id r = ''p1'' \<longrightarrow> (\<exists>d. dose r = dose_value d)"
  proof -
    have 1: "\<exists>d. ''D1'' = dose_value d" by (rule exI[of _ D1]) simp
    have 2: "\<exists>d. ''D2'' = dose_value d" by (rule exI[of _ D2]) simp
    show ?thesis using 1 2 by (simp add: stored_def)
  qed
  from list_view_blocks[OF p g v] obtain l where
    c: "get_card ?db ''p1'' FormatList = Inr (CardList l)"
    and d: "distinct (map cb_vaccine_id (cl_vaccines l))"
    by (elim exE conjE) (rule that)
  from c have "Inr (CardList l) = get_card ?db ''p1'' FormatList" by (rule sym)
  then have l: "l = \<lparr>
       cl_person = \<lparr> po_id = ''p1'', po_name = ''Ana Paula'', po_document = ''123'',
                      po_sex = G_F, po_age = 30 \<rparr>,
       cl_vaccines =
         [\<lparr> cb_vaccine_id = ''v2'', cb_vaccine_name = ''BCG'',
            entries = [\<lparr> record_id = ''r2'', ce_dose = D1, ce_applied_at = (2025, 1, 5),
                         ce_lot = None, ce_location = None \<rparr>] \<rparr>,
          \<lparr> cb_vaccine_id = ''v1'', cb_vaccine_name = ''Hepatite B'',
            entries = [\<lparr> record_id = ''r3'', ce_dose = D1, ce_applied_at = (2025, 1, 10),
                         ce_lot = None, ce_location = None \<rparr>,
                       \<lparr> record_id = ''r1'', ce_dose = D2, ce_applied_at = (2025, 2, 10),
                         ce_lot = None, ce_location = None \<rparr>] \<rparr>] \<rparr>"
    unfolding list_demo by (simp only: sum.inject card.inject)
  have i: "map cb_vaccine_id (cl_vaccines l) = [''v2'', ''v1'']"
    and e: "map (\<lambda>b. map record_id (entries b)) (cl_vaccines l) = [[''r2''], [''r3'', ''r1'']]"
    unfolding l by simp_all
  show ?thesis
    by (rule exI[of _ l]) (intro conjI c d i e)
qed

end
